theory Spec2Isabelle
  imports
    Main
    "HOL-Library.Multiset"
    "HOL-Library.Word"
    "HOL-Library.AList"
    "HOL-Library.Char_ord"
    "HOL-Library.List_Lexorder"
begin

section \<open>Describing Kafka consumer groups\<close>

text \<open>
  The source is \<^verbatim>\<open>backend/pkg/kafka/describe_consumer_groups.go\<close>. The theory embeds
  \<^verbatim>\<open>DescribeConsumerGroups\<close>, \<^verbatim>\<open>convertSaramaGroupDescriptions\<close> and \<^verbatim>\<open>convertGroupMembers\<close>. What the Go code obtains from outside the repository is a
  parameter of the model:
  \<^item> the sarama client (\<^verbatim>\<open>Client.Coordinator\<close>, \<^verbatim>\<open>Broker.DescribeGroups\<close>,
    \<^verbatim>\<open>GetMemberAssignment\<close>) is the environment and the raw records it hands back;
  \<^item> \<^verbatim>\<open>sort.Slice\<close> is a function of the environment, one for each slice type it is
    called on. It is not stable, so the theorems assume only that it returns a
    permutation of its argument in ascending key order;
  \<^item> the order in which the workers' outcomes reach the result channel, and what each
    \<^verbatim>\<open>select\<close> of the aggregation loop finds ready, is the schedule. Every call of
    \<^verbatim>\<open>Broker.DescribeGroups\<close> is taken to return, with a result or with an error.
  Raw records are values: of the pointers the client library hands back, only the result
  of \<^verbatim>\<open>GetMemberAssignment\<close> may be nil.
  Strings are byte strings, compared lexicographically byte by byte, as Go's \<^verbatim>\<open><\<close> on
  strings does.
\<close>

subsection \<open>Data\<close>

type_synonym int32 = "32 word"

text \<open>\<^verbatim>\<open>sarama.KError\<close> is an int16; \<^verbatim>\<open>sarama.ErrNoError\<close> is 0.\<close>

type_synonym KError = "16 word"

definition ErrNoError :: KError where
  "ErrNoError = 0"

text \<open>
  The values of Go's \<^verbatim>\<open>error\<close> that the function can return, and the one run-time panic
  the claims speak of (reading a field through a nil pointer).
\<close>

datatype err =
    ClientError string
  | GroupError KError
  | BrokerDescribeFailed int32 err
  | ContextCancelled
  | NilDereference

text \<open>What the zap logger is asked to write.\<close>

datatype log_entry =
    Warn_decode_failed string err
  | Error_context_cancelled

text \<open>
  A Go map that the code ranges over is the list of its entries in the order \<^verbatim>\<open>range\<close>
  visits them; the keys of a map are pairwise distinct.
\<close>

type_synonym ('k, 'v) gomap = "('k \<times> 'v) list"

text \<open>
  The records of the client library. Where a field has the name of a field of the output
  records, it carries the prefix \<open>raw_\<close> here.

  \<^verbatim>\<open>sarama.GroupMemberDescription\<close>. The field \<open>GetMemberAssignment\<close> is what the method
  of that name returns for this member: the pointer (\<open>None\<close> is nil, otherwise the
  \<^verbatim>\<open>Topics\<close> map of the assignment it points to) and the error (\<open>None\<close> is nil).
\<close>

record sarama_GroupMemberDescription =
  ClientId :: string
  raw_ClientHost :: string
  GetMemberAssignment :: "(string, int32 list) gomap option \<times> err option"

record sarama_GroupDescription =
  raw_Err :: KError
  GroupId :: string
  raw_State :: string
  raw_ProtocolType :: string
  raw_Protocol :: string
  raw_Members :: "(string, sarama_GroupMemberDescription) gomap"

record GroupMemberAssignment =
  TopicName :: string
  PartitionIDs :: "int32 list"

record GroupMemberDescription =
  ID :: string
  ClientID :: string
  ClientHost :: string
  Assignments :: "GroupMemberAssignment list"

record GroupDescription =
  GroupID :: string
  State :: string
  ProtocolType :: string
  Protocol :: string
  Members :: "GroupMemberDescription list"

text \<open>A \<^verbatim>\<open>*sarama.Broker\<close>: its \<^verbatim>\<open>ID()\<close> and what \<^verbatim>\<open>DescribeGroups\<close> answers to a request.\<close>

record broker =
  broker_ID :: int32
  DescribeGroups :: "string list \<Rightarrow> err + sarama_GroupDescription list"

text \<open>The local type \<^verbatim>\<open>response\<close> of \<^verbatim>\<open>DescribeConsumerGroups\<close>.\<close>

record response =
  Err :: "err option"
  Groups :: "sarama_GroupDescription list"
  BrokerID :: int32

text \<open>
  What a call draws on: \<^verbatim>\<open>s.Client.Coordinator\<close>, taken as a function of the group ID,
  and \<^verbatim>\<open>sort.Slice\<close> at its three call sites (partition IDs by \<^verbatim>\<open><\<close> on int32, assignments by
  topic name, descriptions by group ID).
\<close>

record env =
  Coordinator :: "string \<Rightarrow> err + broker"
  sort_partitionIDs :: "int32 list \<Rightarrow> int32 list"
  sort_assignments :: "GroupMemberAssignment list \<Rightarrow> GroupMemberAssignment list"
  sort_descriptions :: "GroupDescription list \<Rightarrow> GroupDescription list"

text \<open>
  One run of the aggregation loop. \<open>arrival\<close> puts the outcomes the workers send into
  the order in which \<^verbatim>\<open>resCh\<close> delivers them. The loop's \<^verbatim>\<open>select\<close> number \<open>i\<close> (from 0)
  finds \<^verbatim>\<open>ctx.Done()\<close> ready when \<open>ctx_done i\<close>; \<open>chan_first i\<close> says that the channel case
  is ready as well and is the one Go's pseudo-random choice takes. Every worker
  sends its outcome and the channel is closed after the last one, so the channel
  case becomes ready at every \<^verbatim>\<open>select\<close> that waits for it.
\<close>

record schedule =
  arrival :: "response list \<Rightarrow> response list"
  ctx_done :: "nat \<Rightarrow> bool"
  chan_first :: "nat \<Rightarrow> bool"

definition takes_ctx_case :: "schedule \<Rightarrow> nat \<Rightarrow> bool" where
  "takes_ctx_case s i \<longleftrightarrow> ctx_done s i \<and> \<not> chan_first s i"

subsection \<open>convertGroupMembers\<close>

text \<open>The body of the loop over the member map, for one entry.\<close>

definition convertGroupMember ::
  "env \<Rightarrow> string \<Rightarrow> string \<times> sarama_GroupMemberDescription
    \<Rightarrow> log_entry list \<times> (err + GroupMemberDescription)" where
  "convertGroupMember e protocolType entry =
     (case entry of (id', m) \<Rightarrow>
       if protocolType = ''consumer'' then
         (case GetMemberAssignment m of (assignments, failure) \<Rightarrow>
           let logged = (case failure of
                           None \<Rightarrow> []
                         | Some x \<Rightarrow> [Warn_decode_failed (ClientId m) x])
           in (case assignments of
                 None \<Rightarrow> (logged, Inl NilDereference)
               | Some topics \<Rightarrow>
                   (logged,
                    Inr \<lparr>ID = id', ClientID = ClientId m, ClientHost = raw_ClientHost m,
                         Assignments = sort_assignments e
                           (map (\<lambda>(topic, partitionIDs).
                                   \<lparr>TopicName = topic,
                                    PartitionIDs = sort_partitionIDs e partitionIDs\<rparr>)
                                topics)\<rparr>)))
       else
         ([], Inr \<lparr>ID = id', ClientID = ClientId m, ClientHost = raw_ClientHost m,
                   Assignments = sort_assignments e []\<rparr>))"

fun convertGroupMembers ::
  "env \<Rightarrow> (string, sarama_GroupMemberDescription) gomap \<Rightarrow> string
    \<Rightarrow> log_entry list \<times> (err + GroupMemberDescription list)" where
  "convertGroupMembers e [] protocolType = ([], Inr [])"
| "convertGroupMembers e (entry # members) protocolType =
     (case convertGroupMember e protocolType entry of
        (logged, Inl x) \<Rightarrow> (logged, Inl x)
      | (logged, Inr member) \<Rightarrow>
          (case convertGroupMembers e members protocolType of
             (logged', Inl x) \<Rightarrow> (logged @ logged', Inl x)
           | (logged', Inr response) \<Rightarrow> (logged @ logged', Inr (member # response))))"

subsection \<open>convertSaramaGroupDescriptions\<close>

fun convertSaramaGroupDescriptions ::
  "env \<Rightarrow> sarama_GroupDescription list \<Rightarrow> log_entry list \<times> (err + GroupDescription list)" where
  "convertSaramaGroupDescriptions e [] = ([], Inr [])"
| "convertSaramaGroupDescriptions e (d # descriptions) =
     (if raw_Err d \<noteq> ErrNoError then ([], Inl (GroupError (raw_Err d)))
      else
        (case convertGroupMembers e (raw_Members d) (raw_ProtocolType d) of
           (logged, Inl x) \<Rightarrow> (logged, Inl x)
         | (logged, Inr members) \<Rightarrow>
             (case convertSaramaGroupDescriptions e descriptions of
                (logged', Inl x) \<Rightarrow> (logged @ logged', Inl x)
              | (logged', Inr response) \<Rightarrow>
                  (logged @ logged',
                   Inr (\<lparr>GroupID = GroupId d, State = raw_State d,
                         ProtocolType = raw_ProtocolType d, Protocol = raw_Protocol d,
                         Members = members\<rparr> # response)))))"

subsection \<open>DescribeConsumerGroups\<close>

text \<open>
  Step 1, the loop over \<open>groups\<close>. \<open>brokersByID\<close> is only looked up, so it is a map;
  \<open>groupsByBrokerID\<close> is ranged over, so it is a list of entries, a new key going to
  the end.
\<close>

fun bucket ::
  "env \<Rightarrow> string list \<Rightarrow> (int32 \<rightharpoonup> broker) \<Rightarrow> (int32, string list) gomap
    \<Rightarrow> err + (int32 \<rightharpoonup> broker) \<times> (int32, string list) gomap" where
  "bucket e [] brokersByID groupsByBrokerID = Inr (brokersByID, groupsByBrokerID)"
| "bucket e (group' # groups) brokersByID groupsByBrokerID =
     (case Coordinator e group' of
        Inl x \<Rightarrow> Inl x
      | Inr coordinator \<Rightarrow>
          (let id' = broker_ID coordinator
           in bucket e groups (brokersByID(id' \<mapsto> coordinator))
                (AList.update id'
                   ((case map_of groupsByBrokerID id' of None \<Rightarrow> [] | Some grps \<Rightarrow> grps)
                      @ [group'])
                   groupsByBrokerID)))"

text \<open>Step 2, the goroutine started for one entry of \<open>groupsByBrokerID\<close>.\<close>

definition worker :: "broker \<Rightarrow> string list \<Rightarrow> response" where
  "worker b grps =
     (case DescribeGroups b grps of
        Inl x \<Rightarrow> \<lparr>Err = Some x, Groups = [], BrokerID = broker_ID b\<rparr>
      | Inr r \<Rightarrow> \<lparr>Err = None, Groups = r, BrokerID = broker_ID b\<rparr>)"

text \<open>
  The describe-requests of one call: for every entry of \<open>groupsByBrokerID\<close> the broker
  handle it is sent to and the group IDs it carries. An ID without a handle in
  \<open>brokersByID\<close> would be a call through a nil pointer.
\<close>

fun requests ::
  "(int32 \<rightharpoonup> broker) \<Rightarrow> (int32, string list) gomap \<Rightarrow> err + (broker \<times> string list) list" where
  "requests brokersByID [] = Inr []"
| "requests brokersByID ((id', grps) # rest) =
     (case brokersByID id' of
        None \<Rightarrow> Inl NilDereference
      | Some b \<Rightarrow>
          (case requests brokersByID rest of
             Inl x \<Rightarrow> Inl x
           | Inr reqs \<Rightarrow> Inr ((b, grps) # reqs)))"

text \<open>
  Step 3, the loop labelled \<^verbatim>\<open>Loop\<close>: \<open>i\<close> counts its passes, the list is what the
  channel still has to deliver (empty: closed), \<open>descriptions\<close> is the slice so far.
\<close>

fun aggregate ::
  "env \<Rightarrow> schedule \<Rightarrow> nat \<Rightarrow> response list \<Rightarrow> GroupDescription list
    \<Rightarrow> log_entry list \<times> (err + GroupDescription list)" where
  "aggregate e s i [] descriptions =
     (if takes_ctx_case s i then ([Error_context_cancelled], Inl ContextCancelled)
      else ([], Inr descriptions))"
| "aggregate e s i (d # resCh) descriptions =
     (if takes_ctx_case s i then ([Error_context_cancelled], Inl ContextCancelled)
      else
        (case Err d of
           Some x \<Rightarrow> ([], Inl (BrokerDescribeFailed (BrokerID d) x))
         | None \<Rightarrow>
             (case convertSaramaGroupDescriptions e (Groups d) of
                (logged, Inl x) \<Rightarrow> (logged, Inl x)
              | (logged, Inr converted) \<Rightarrow>
                  (case aggregate e s (Suc i) resCh (descriptions @ converted) of
                     (logged', r) \<Rightarrow> (logged @ logged', r)))))"

definition DescribeConsumerGroups ::
  "env \<Rightarrow> schedule \<Rightarrow> string list \<Rightarrow> log_entry list \<times> (err + GroupDescription list)" where
  "DescribeConsumerGroups e s groups =
     (case bucket e groups Map.empty [] of
        Inl x \<Rightarrow> ([], Inl x)
      | Inr (brokersByID, groupsByBrokerID) \<Rightarrow>
          (case requests brokersByID groupsByBrokerID of
             Inl x \<Rightarrow> ([], Inl x)
           | Inr reqs \<Rightarrow>
               (case aggregate e s 0 (arrival s (map (\<lambda>(b, grps). worker b grps) reqs)) [] of
                  (logged, Inl x) \<Rightarrow> (logged, Inl x)
                | (logged, Inr descriptions) \<Rightarrow>
                    (logged, Inr (sort_descriptions e descriptions)))))"

text \<open>The describe-requests a call issues; none when a coordinator lookup fails.\<close>

definition issued_requests :: "env \<Rightarrow> string list \<Rightarrow> (broker \<times> string list) list" where
  "issued_requests e groups =
     (case bucket e groups Map.empty [] of
        Inl x \<Rightarrow> []
      | Inr (brokersByID, groupsByBrokerID) \<Rightarrow>
          (case requests brokersByID groupsByBrokerID of Inl x \<Rightarrow> [] | Inr reqs \<Rightarrow> reqs))"

subsection \<open>What is assumed of the environment\<close>

text \<open>\<^verbatim>\<open>sort.Slice\<close> with the comparison \<open>key a < key b\<close>.\<close>

definition sorts_by :: "('a \<Rightarrow> 'k::linorder) \<Rightarrow> ('a list \<Rightarrow> 'a list) \<Rightarrow> bool" where
  "sorts_by key srt \<longleftrightarrow> (\<forall>xs. mset (srt xs) = mset xs \<and> sorted (map key (srt xs)))"

definition sorting_env :: "env \<Rightarrow> bool" where
  "sorting_env e \<longleftrightarrow>
     sorts_by sint (sort_partitionIDs e) \<and>
     sorts_by TopicName (sort_assignments e) \<and>
     sorts_by GroupID (sort_descriptions e)"

text \<open>The channel delivers every outcome sent to it once, in some order.\<close>

definition delivers_all :: "schedule \<Rightarrow> bool" where
  "delivers_all s \<longleftrightarrow> (\<forall>rs. mset (arrival s rs) = mset rs)"

subsection \<open>Notions the properties are stated with\<close>

definition decodes_to_nil :: "string \<Rightarrow> string \<times> sarama_GroupMemberDescription \<Rightarrow> bool" where
  "decodes_to_nil protocolType entry \<longleftrightarrow>
     protocolType = ''consumer'' \<and> fst (GetMemberAssignment (snd entry)) = None"

definition group_converts :: "env \<Rightarrow> sarama_GroupDescription \<Rightarrow> GroupDescription \<Rightarrow> bool" where
  "group_converts e d g \<longleftrightarrow>
     raw_Err d = ErrNoError \<and>
     (\<exists>members. snd (convertGroupMembers e (raw_Members d) (raw_ProtocolType d)) = Inr members \<and>
        g = \<lparr>GroupID = GroupId d, State = raw_State d, ProtocolType = raw_ProtocolType d,
             Protocol = raw_Protocol d, Members = members\<rparr>)"

definition coordinator_ID :: "env \<Rightarrow> string \<Rightarrow> int32 option" where
  "coordinator_ID e g = (case Coordinator e g of Inl x \<Rightarrow> None | Inr b \<Rightarrow> Some (broker_ID b))"

definition resolves :: "env \<Rightarrow> string list \<Rightarrow> bool" where
  "resolves e groups \<longleftrightarrow> list_all (\<lambda>g. \<exists>b. Coordinator e g = Inr b) groups"

definition converts_to :: "env \<Rightarrow> response \<Rightarrow> GroupDescription list \<Rightarrow> bool" where
  "converts_to e d converted \<longleftrightarrow>
     Err d = None \<and> snd (convertSaramaGroupDescriptions e (Groups d)) = Inr converted"

definition good_outcome :: "env \<Rightarrow> response \<Rightarrow> bool" where
  "good_outcome e d \<longleftrightarrow> (\<exists>converted. converts_to e d converted)"

definition conversion_log :: "env \<Rightarrow> response list \<Rightarrow> log_entry list" where
  "conversion_log e ds = concat (map (\<lambda>d. fst (convertSaramaGroupDescriptions e (Groups d))) ds)"

definition outcomes :: "env \<Rightarrow> string list \<Rightarrow> response list" where
  "outcomes e groups = map (\<lambda>(b, grps). worker b grps) (issued_requests e groups)"

text \<open>No condition that ends the call with an error or a panic holds.\<close>

definition nothing_fatal :: "env \<Rightarrow> schedule \<Rightarrow> string list \<Rightarrow> bool" where
  "nothing_fatal e s groups \<longleftrightarrow>
     resolves e groups \<and>
     (\<forall>j\<le>length (outcomes e groups). \<not> takes_ctx_case s j) \<and>
     (\<forall>d\<in>set (outcomes e groups). Err d = None \<and>
        (\<forall>g\<in>set (Groups d). raw_Err g = ErrNoError \<and>
           (\<forall>entry\<in>set (raw_Members g). \<not> decodes_to_nil (raw_ProtocolType g) entry)))"

text \<open>The topic map the conversion of a member reads: none unless the protocol type is consumer.\<close>

definition decoded_topics :: "string \<Rightarrow> sarama_GroupMemberDescription \<Rightarrow> (string, int32 list) gomap" where
  "decoded_topics protocolType m =
     (if protocolType = ''consumer''
      then (case fst (GetMemberAssignment m) of None \<Rightarrow> [] | Some topics \<Rightarrow> topics)
      else [])"

text \<open>
  Two runs on one cluster. A run sees the entries of a Go map in the order its own
  \<^verbatim>\<open>range\<close> visits them, so the same cluster is two environments that agree up to that
  order: the same \<^verbatim>\<open>sort.Slice\<close>; every lookup failing alike or giving brokers with the
  same ID; every request failing alike or answered with the same records in the same
  order, where the member map of a record and the \<^verbatim>\<open>Topics\<close> map of a member hold the same
  entries in any order. The keys of a \<^verbatim>\<open>Topics\<close> map are pairwise distinct.
\<close>

definition same_topics :: "(string, int32 list) gomap option \<Rightarrow> (string, int32 list) gomap option \<Rightarrow> bool" where
  "same_topics a a' \<longleftrightarrow>
     (case (a, a') of
        (None, None) \<Rightarrow> True
      | (Some topics, Some topics') \<Rightarrow> distinct (map fst topics) \<and> mset topics' = mset topics
      | _ \<Rightarrow> False)"

definition same_member ::
  "string \<times> sarama_GroupMemberDescription \<Rightarrow> string \<times> sarama_GroupMemberDescription \<Rightarrow> bool" where
  "same_member entry entry' \<longleftrightarrow>
     fst entry' = fst entry \<and>
     ClientId (snd entry') = ClientId (snd entry) \<and>
     raw_ClientHost (snd entry') = raw_ClientHost (snd entry) \<and>
     snd (GetMemberAssignment (snd entry')) = snd (GetMemberAssignment (snd entry)) \<and>
     same_topics (fst (GetMemberAssignment (snd entry))) (fst (GetMemberAssignment (snd entry')))"

definition same_group :: "sarama_GroupDescription \<Rightarrow> sarama_GroupDescription \<Rightarrow> bool" where
  "same_group d d' \<longleftrightarrow>
     raw_Err d' = raw_Err d \<and> GroupId d' = GroupId d \<and> raw_State d' = raw_State d \<and>
     raw_ProtocolType d' = raw_ProtocolType d \<and> raw_Protocol d' = raw_Protocol d \<and>
     (\<exists>members. mset members = mset (raw_Members d) \<and>
        list_all2 same_member members (raw_Members d'))"

definition same_answer ::
  "err + sarama_GroupDescription list \<Rightarrow> err + sarama_GroupDescription list \<Rightarrow> bool" where
  "same_answer r r' \<longleftrightarrow>
     (case (r, r') of
        (Inl x, Inl x') \<Rightarrow> x' = x
      | (Inr raw, Inr raw') \<Rightarrow> list_all2 same_group raw raw'
      | _ \<Rightarrow> False)"

definition same_broker :: "broker \<Rightarrow> broker \<Rightarrow> bool" where
  "same_broker b b' \<longleftrightarrow>
     broker_ID b' = broker_ID b \<and>
     (\<forall>grps. same_answer (DescribeGroups b grps) (DescribeGroups b' grps))"

definition same_cluster :: "env \<Rightarrow> env \<Rightarrow> bool" where
  "same_cluster e e' \<longleftrightarrow>
     sort_partitionIDs e' = sort_partitionIDs e \<and>
     sort_assignments e' = sort_assignments e \<and>
     sort_descriptions e' = sort_descriptions e \<and>
     (\<forall>g. case (Coordinator e g, Coordinator e' g) of
             (Inl x, Inl x') \<Rightarrow> x' = x
           | (Inr b, Inr b') \<Rightarrow> same_broker b b'
           | _ \<Rightarrow> False)"

definition same_outcome :: "response \<Rightarrow> response \<Rightarrow> bool" where
  "same_outcome d d' \<longleftrightarrow>
     Err d' = Err d \<and> BrokerID d' = BrokerID d \<and> list_all2 same_group (Groups d) (Groups d')"

text \<open>
  Two descriptions of one group that differ at most in the order of the members.
\<close>

definition same_description :: "GroupDescription \<Rightarrow> GroupDescription \<Rightarrow> bool" where
  "same_description g g' \<longleftrightarrow>
     GroupID g' = GroupID g \<and> State g' = State g \<and> ProtocolType g' = ProtocolType g \<and>
     Protocol g' = Protocol g \<and> mset (Members g') = mset (Members g)"

text \<open>
  The descriptions an outcome contributes when its conversion succeeds.
\<close>

definition converted_groups :: "env \<Rightarrow> response \<Rightarrow> GroupDescription list" where
  "converted_groups e d =
     (case snd (convertSaramaGroupDescriptions e (Groups d)) of Inl x \<Rightarrow> [] | Inr c \<Rightarrow> c)"

subsection \<open>A sample cluster\<close>

definition demo_member :: sarama_GroupMemberDescription where
  "demo_member = \<lparr>ClientId = ''client-1'', raw_ClientHost = ''/10.0.0.1'',
     GetMemberAssignment = (Some [(''topic-x'', [2, 0, 1])], None)\<rparr>"

definition corrupt_member :: sarama_GroupMemberDescription where
  "corrupt_member = \<lparr>ClientId = ''client-2'', raw_ClientHost = ''/10.0.0.2'',
     GetMemberAssignment =
       (Some [(''topic-z'', [1]), (''topic-y'', [3, 1])],
        Some (ClientError ''insufficient data to decode packet''))\<rparr>"

definition nil_member :: sarama_GroupMemberDescription where
  "nil_member = \<lparr>ClientId = ''client-3'', raw_ClientHost = ''/10.0.0.3'',
     GetMemberAssignment = (None, Some (ClientError ''insufficient data to decode packet''))\<rparr>"

definition demo_describe :: "string \<Rightarrow> sarama_GroupDescription" where
  "demo_describe g =
     (if g = ''group-a'' then
        \<lparr>raw_Err = ErrNoError, GroupId = g, raw_State = ''Stable'',
         raw_ProtocolType = ''consumer'', raw_Protocol = ''range'',
         raw_Members = [(''m1'', demo_member)]\<rparr>
      else if g = ''group-c'' then
        \<lparr>raw_Err = ErrNoError, GroupId = g, raw_State = ''Stable'',
         raw_ProtocolType = ''consumer'', raw_Protocol = ''range'',
         raw_Members = [(''m2'', corrupt_member)]\<rparr>
      else if g = ''group-e'' then
        \<lparr>raw_Err = 15, GroupId = g, raw_State = [],
         raw_ProtocolType = [], raw_Protocol = [], raw_Members = []\<rparr>
      else
        \<lparr>raw_Err = ErrNoError, GroupId = g, raw_State = ''Empty'',
         raw_ProtocolType = ''consumer'', raw_Protocol = [], raw_Members = []\<rparr>)"

definition demo_broker :: "int32 \<Rightarrow> broker" where
  "demo_broker i = \<lparr>broker_ID = i, DescribeGroups = (\<lambda>grps. Inr (map demo_describe grps))\<rparr>"

definition down_broker :: "int32 \<Rightarrow> broker" where
  "down_broker i = \<lparr>broker_ID = i, DescribeGroups = (\<lambda>grps. Inl (ClientError ''EOF''))\<rparr>"

definition demo_env :: env where
  "demo_env =
     \<lparr>Coordinator = (\<lambda>g.
        if g = ''group-x'' then Inl (ClientError ''no coordinator'')
        else if g = ''group-d'' then Inr (down_broker 3)
        else if g = ''group-c'' \<or> g = ''group-e'' then Inr (demo_broker 2)
        else Inr (demo_broker 1)),
      sort_partitionIDs = sort_key sint,
      sort_assignments = sort_key TopicName,
      sort_descriptions = sort_key GroupID\<rparr>"

definition in_order :: schedule where
  "in_order = \<lparr>arrival = (\<lambda>rs. rs), ctx_done = (\<lambda>i. False), chan_first = (\<lambda>i. True)\<rparr>"

definition reversed :: schedule where
  "reversed = \<lparr>arrival = rev, ctx_done = (\<lambda>i. False), chan_first = (\<lambda>i. True)\<rparr>"

definition group_a_description :: GroupDescription where
  "group_a_description =
     \<lparr>GroupID = ''group-a'', State = ''Stable'', ProtocolType = ''consumer'',
      Protocol = ''range'',
      Members = [\<lparr>ID = ''m1'', ClientID = ''client-1'', ClientHost = ''/10.0.0.1'',
                   Assignments = [\<lparr>TopicName = ''topic-x'', PartitionIDs = [0, 1, 2]\<rparr>]\<rparr>]\<rparr>"

definition group_b_description :: GroupDescription where
  "group_b_description =
     \<lparr>GroupID = ''group-b'', State = ''Empty'', ProtocolType = ''consumer'',
      Protocol = [], Members = []\<rparr>"

definition group_c_member :: GroupMemberDescription where
  "group_c_member =
     \<lparr>ID = ''m2'', ClientID = ''client-2'', ClientHost = ''/10.0.0.2'',
      Assignments = [\<lparr>TopicName = ''topic-y'', PartitionIDs = [1, 3]\<rparr>,
                     \<lparr>TopicName = ''topic-z'', PartitionIDs = [1]\<rparr>]\<rparr>"

definition group_c_description :: GroupDescription where
  "group_c_description =
     \<lparr>GroupID = ''group-c'', State = ''Stable'', ProtocolType = ''consumer'',
      Protocol = ''range'', Members = [group_c_member]\<rparr>"

definition group_a_outcome :: response where
  "group_a_outcome = \<lparr>Err = None, Groups = [demo_describe ''group-a''], BrokerID = 1\<rparr>"

definition group_c_outcome :: response where
  "group_c_outcome = \<lparr>Err = None, Groups = [demo_describe ''group-c''], BrokerID = 2\<rparr>"

definition group_e_outcome :: response where
  "group_e_outcome =
     \<lparr>Err = None, Groups = [demo_describe ''group-c'', demo_describe ''group-e''], BrokerID = 2\<rparr>"

text \<open>
  Schedules: the signal has fired from the start but every \<^verbatim>\<open>select\<close> finds the channel
  ready and takes it; the signal fires at \<^verbatim>\<open>select\<close> number \<open>k\<close> while the channel is not ready.
\<close>

definition racing :: schedule where
  "racing = \<lparr>arrival = (\<lambda>rs. rs), ctx_done = (\<lambda>i. True), chan_first = (\<lambda>i. True)\<rparr>"

definition cancelled_at :: "nat \<Rightarrow> schedule" where
  "cancelled_at k = \<lparr>arrival = (\<lambda>rs. rs), ctx_done = (\<lambda>i. k \<le> i), chan_first = (\<lambda>i. False)\<rparr>"

text \<open>
  A second cluster, seen by two runs: in the run \<open>flipped\<close> the \<^verbatim>\<open>range\<close> over the member map
  of group-p and over the \<^verbatim>\<open>Topics\<close> map of its member m4 visit the entries in the other
  order.
\<close>

definition other_member :: "bool \<Rightarrow> sarama_GroupMemberDescription" where
  "other_member flipped =
     \<lparr>ClientId = ''client-4'', raw_ClientHost = ''/10.0.0.4'',
      GetMemberAssignment =
        (Some (if flipped then [(''topic-w'', [0]), (''topic-x'', [5, 4])]
               else [(''topic-x'', [5, 4]), (''topic-w'', [0])]),
         None)\<rparr>"

definition pair_describe :: "bool \<Rightarrow> string \<Rightarrow> sarama_GroupDescription" where
  "pair_describe flipped g =
     (if g = ''group-p'' then
        \<lparr>raw_Err = ErrNoError, GroupId = g, raw_State = ''Stable'',
         raw_ProtocolType = ''consumer'', raw_Protocol = ''range'',
         raw_Members =
           (if flipped then [(''m4'', other_member flipped), (''m1'', demo_member)]
            else [(''m1'', demo_member), (''m4'', other_member flipped)])\<rparr>
      else
        \<lparr>raw_Err = ErrNoError, GroupId = g, raw_State = ''Empty'',
         raw_ProtocolType = ''consumer'', raw_Protocol = [], raw_Members = []\<rparr>)"

definition pair_broker :: "bool \<Rightarrow> int32 \<Rightarrow> broker" where
  "pair_broker flipped i =
     \<lparr>broker_ID = i, DescribeGroups = (\<lambda>grps. Inr (map (pair_describe flipped) grps))\<rparr>"

definition pair_env :: "bool \<Rightarrow> env" where
  "pair_env flipped =
     \<lparr>Coordinator = (\<lambda>g.
        if g = ''group-b'' then Inr (pair_broker flipped 2) else Inr (pair_broker flipped 1)),
      sort_partitionIDs = sort_key sint,
      sort_assignments = sort_key TopicName,
      sort_descriptions = sort_key GroupID\<rparr>"

definition member_1 :: GroupMemberDescription where
  "member_1 =
     \<lparr>ID = ''m1'', ClientID = ''client-1'', ClientHost = ''/10.0.0.1'',
      Assignments = [\<lparr>TopicName = ''topic-x'', PartitionIDs = [0, 1, 2]\<rparr>]\<rparr>"

definition member_4 :: GroupMemberDescription where
  "member_4 =
     \<lparr>ID = ''m4'', ClientID = ''client-4'', ClientHost = ''/10.0.0.4'',
      Assignments = [\<lparr>TopicName = ''topic-w'', PartitionIDs = [0]\<rparr>,
                     \<lparr>TopicName = ''topic-x'', PartitionIDs = [4, 5]\<rparr>]\<rparr>"

definition group_p_description :: "GroupMemberDescription list \<Rightarrow> GroupDescription" where
  "group_p_description members =
     \<lparr>GroupID = ''group-p'', State = ''Stable'', ProtocolType = ''consumer'',
      Protocol = ''range'', Members = members\<rparr>"

section \<open>Auxiliary facts\<close>

lemma sorts_by_mset: "sorts_by key srt \<Longrightarrow> mset (srt xs) = mset xs"
  by (simp add: sorts_by_def)

lemma sorts_by_sorted: "sorts_by key srt \<Longrightarrow> sorted (map key (srt xs))"
  by (simp add: sorts_by_def)

lemma sorts_by_set: "sorts_by key srt \<Longrightarrow> set (srt xs) = set xs"
  by (metis sorts_by_mset set_mset_mset)

lemma sorts_by_length: "sorts_by key srt \<Longrightarrow> length (srt xs) = length xs"
  by (metis sorts_by_mset size_mset)

lemma sorted_keys_unique:
  assumes "mset xs = mset ys" "sorted (map key xs)" "sorted (map key ys)" "distinct (map key xs)"
  shows "xs = ys"
proof -
  have k: "mset (map key xs) = mset (map key ys)" using assms(1) by simp
  have keys: "map key xs = map key ys"
  proof -
    have "sort (map key ys) = map key xs"
      using k assms(2) by (intro properties_for_sort) simp_all
    moreover have "sort (map key ys) = map key ys"
      using assms(3) by (rule sorted_sort_id)
    ultimately show ?thesis by simp
  qed
  have "inj_on key (set xs \<union> set ys)"
    using assms(1,4) by (metis distinct_map mset_eq_setD sup.idem)
  then show ?thesis using keys by (simp add: inj_on_map_eq_map)
qed

lemma sorts_by_unique:
  assumes "sorts_by key srt" "mset xs = mset ys" "distinct (map key xs)"
  shows "srt xs = srt ys"
proof (rule sorted_keys_unique)
  show "mset (srt xs) = mset (srt ys)" using assms(1,2) by (simp add: sorts_by_mset)
  show "sorted (map key (srt xs))" "sorted (map key (srt ys))" using assms(1) by (simp_all add: sorts_by_sorted)
  have "mset (map key (srt xs)) = mset (map key xs)" using assms(1) by (simp add: sorts_by_mset)
  then show "distinct (map key (srt xs))" using assms(3) by (metis mset_eq_imp_distinct_iff)
qed

lemma mset_concat_map_cong:
  "mset xs = mset ys \<Longrightarrow> mset (concat (map f xs)) = mset (concat (map f ys))"
proof -
  assume a: "mset xs = mset ys"
  have "\<And>zs. mset (concat (map f zs)) = sum_mset (image_mset (\<lambda>z. mset (f z)) (mset zs))"
    by (induct_tac zs) simp_all
  then show ?thesis using a by simp
qed

lemma convertGroupMember_Inl:
  "snd (convertGroupMember e pt entry) = Inl x \<longleftrightarrow> x = NilDereference \<and> decodes_to_nil pt entry"
  by (cases entry) (auto simp: convertGroupMember_def decodes_to_nil_def Let_def
        split: prod.splits option.splits)

lemma convertGroupMembers_snd_Cons:
  "snd (convertGroupMembers e (entry # members) pt) =
     (case snd (convertGroupMember e pt entry) of
        Inl x \<Rightarrow> Inl x
      | Inr member \<Rightarrow>
          (case snd (convertGroupMembers e members pt) of
             Inl x \<Rightarrow> Inl x
           | Inr response \<Rightarrow> Inr (member # response)))"
  by (simp split: prod.splits sum.splits)

lemma convertGroupMembers_fst_Cons:
  "fst (convertGroupMembers e (entry # members) pt) =
     (case snd (convertGroupMember e pt entry) of
        Inl x \<Rightarrow> fst (convertGroupMember e pt entry)
      | Inr member \<Rightarrow>
          fst (convertGroupMember e pt entry) @ fst (convertGroupMembers e members pt))"
  by (simp split: prod.splits sum.splits)

declare convertGroupMembers.simps(2) [simp del]

lemma convertGroupMembers_Inr:
  "snd (convertGroupMembers e members pt) = Inr out \<longleftrightarrow>
     list_all2 (\<lambda>entry member. snd (convertGroupMember e pt entry) = Inr member) members out"
proof
  show "snd (convertGroupMembers e members pt) = Inr out \<Longrightarrow>
     list_all2 (\<lambda>entry member. snd (convertGroupMember e pt entry) = Inr member) members out"
  proof (induction members arbitrary: out)
    case Nil
    then show ?case by simp
  next
    case (Cons entry members)
    from Cons.prems obtain member response where
      "snd (convertGroupMember e pt entry) = Inr member"
      "snd (convertGroupMembers e members pt) = Inr response" "out = member # response"
      by (auto simp add: convertGroupMembers_snd_Cons split: sum.splits)
    with Cons.IH [of response] show ?case by simp
  qed
  show "list_all2 (\<lambda>entry member. snd (convertGroupMember e pt entry) = Inr member) members out
     \<Longrightarrow> snd (convertGroupMembers e members pt) = Inr out"
    by (induction members out rule: list_all2_induct)
       (simp_all add: convertGroupMembers_snd_Cons)
qed

lemma convertGroupMembers_Inl:
  "snd (convertGroupMembers e members pt) = Inl x \<longleftrightarrow>
     x = NilDereference \<and> (\<exists>entry\<in>set members. decodes_to_nil pt entry)"
proof (induction members)
  case Nil
  then show ?case by simp
next
  case (Cons entry members)
  show ?case
  proof (cases "snd (convertGroupMember e pt entry)")
    case (Inl y)
    then have "y = NilDereference" "decodes_to_nil pt entry"
      by (simp_all add: convertGroupMember_Inl)
    with Inl show ?thesis
      by (auto simp add: convertGroupMembers_snd_Cons)
  next
    case (Inr member)
    then have "\<not> decodes_to_nil pt entry"
      using convertGroupMember_Inl [of e pt entry NilDereference] by simp
    with Inr Cons.IH show ?thesis
      by (auto simp add: convertGroupMembers_snd_Cons split: sum.splits)
  qed
qed

lemma convertGroupMembers_log:
  "snd (convertGroupMembers e members pt) = Inr out \<Longrightarrow>
     fst (convertGroupMembers e members pt) =
       concat (map (\<lambda>entry. fst (convertGroupMember e pt entry)) members)"
proof (induction members arbitrary: out)
  case Nil
  then show ?case by simp
next
  case (Cons entry members)
  then show ?case
    by (auto simp add: convertGroupMembers_snd_Cons convertGroupMembers_fst_Cons
          split: sum.splits)
qed

lemma convertSaramaGroupDescriptions_snd_Cons:
  "snd (convertSaramaGroupDescriptions e (d # ds)) =
     (if raw_Err d \<noteq> ErrNoError then Inl (GroupError (raw_Err d))
      else
        (case snd (convertGroupMembers e (raw_Members d) (raw_ProtocolType d)) of
           Inl x \<Rightarrow> Inl x
         | Inr members \<Rightarrow>
             (case snd (convertSaramaGroupDescriptions e ds) of
                Inl x \<Rightarrow> Inl x
              | Inr response \<Rightarrow>
                  Inr (\<lparr>GroupID = GroupId d, State = raw_State d,
                        ProtocolType = raw_ProtocolType d, Protocol = raw_Protocol d,
                        Members = members\<rparr> # response))))"
  by (simp split: prod.splits sum.splits)

declare convertSaramaGroupDescriptions.simps(2) [simp del]

lemma group_converts_unique: "group_converts e d g \<Longrightarrow> group_converts e d g' \<Longrightarrow> g = g'"
  by (auto simp: group_converts_def)

lemma convertSaramaGroupDescriptions_Inr:
  "snd (convertSaramaGroupDescriptions e ds) = Inr out \<longleftrightarrow> list_all2 (group_converts e) ds out"
proof
  show "snd (convertSaramaGroupDescriptions e ds) = Inr out \<Longrightarrow>
     list_all2 (group_converts e) ds out"
  proof (induction ds arbitrary: out)
    case Nil
    then show ?case by simp
  next
    case (Cons d ds)
    from Cons.prems obtain members response where
      "raw_Err d = ErrNoError"
      "snd (convertGroupMembers e (raw_Members d) (raw_ProtocolType d)) = Inr members"
      "snd (convertSaramaGroupDescriptions e ds) = Inr response"
      "out = \<lparr>GroupID = GroupId d, State = raw_State d, ProtocolType = raw_ProtocolType d,
               Protocol = raw_Protocol d, Members = members\<rparr> # response"
      by (auto simp add: convertSaramaGroupDescriptions_snd_Cons split: sum.splits if_splits)
    with Cons.IH [of response] show ?case by (simp add: group_converts_def)
  qed
  show "list_all2 (group_converts e) ds out \<Longrightarrow>
     snd (convertSaramaGroupDescriptions e ds) = Inr out"
    by (induction ds out rule: list_all2_induct)
       (auto simp add: convertSaramaGroupDescriptions_snd_Cons group_converts_def)
qed

lemma group_converts_GroupID: "group_converts e d g \<Longrightarrow> GroupID g = GroupId d"
  by (auto simp: group_converts_def)

lemma converted_GroupIDs:
  "snd (convertSaramaGroupDescriptions e ds) = Inr out \<Longrightarrow> map GroupID out = map GroupId ds"
  unfolding convertSaramaGroupDescriptions_Inr
  by (induction ds out rule: list_all2_induct) (simp_all add: group_converts_GroupID)

lemma append_to_batch_mset:
  "mset (concat (map snd
       (AList.update k ((case map_of al k of None \<Rightarrow> [] | Some grps \<Rightarrow> grps) @ [g]) al))) =
     mset (concat (map snd al)) + {#g#}"
  by (induction al) auto

lemma append_to_batch_members:
  assumes "(k', grps) \<in> set (AList.update k ((case map_of al k of None \<Rightarrow> [] | Some gs \<Rightarrow> gs) @ [g]) al)"
    and "g' \<in> set grps"
  shows "(k' = k \<and> g' = g) \<or> (\<exists>grps'. (k', grps') \<in> set al \<and> g' \<in> set grps')"
  using assms
proof (induction al)
  case Nil
  then show ?case by auto
next
  case (Cons p al)
  then show ?case
    by (cases p) (auto split: if_splits dest: map_of_SomeD)
qed

lemma bucket_Cons_Inr:
  assumes "bucket e (g # groups) B G = Inr r"
  obtains c where "Coordinator e g = Inr c"
    and "bucket e groups (B(broker_ID c \<mapsto> c))
           (AList.update (broker_ID c)
              ((case map_of G (broker_ID c) of None \<Rightarrow> [] | Some grps \<Rightarrow> grps) @ [g]) G) = Inr r"
  using assms by (auto simp: Let_def split: sum.splits)

lemma bucket_resolves: "bucket e groups B G = Inr r \<Longrightarrow> resolves e groups"
proof (induction groups arbitrary: B G)
  case Nil
  then show ?case by (simp add: resolves_def)
next
  case (Cons g groups)
  from Cons.prems obtain c where c: "Coordinator e g = Inr c" and
    b: "bucket e groups (B(broker_ID c \<mapsto> c))
           (AList.update (broker_ID c)
              ((case map_of G (broker_ID c) of None \<Rightarrow> [] | Some grps \<Rightarrow> grps) @ [g]) G) = Inr r"
    by (rule bucket_Cons_Inr)
  from Cons.IH [OF b] c show ?case by (simp add: resolves_def)
qed

lemma resolves_bucket: "resolves e groups \<Longrightarrow> \<exists>r. bucket e groups B G = Inr r"
  by (induction groups arbitrary: B G) (auto simp: resolves_def Let_def)

lemma bucket_distinct:
  "bucket e groups B G = Inr (B', G') \<Longrightarrow> distinct (map fst G) \<Longrightarrow> distinct (map fst G')"
proof (induction groups arbitrary: B G)
  case Nil
  then show ?case by simp
next
  case (Cons g groups)
  from Cons.prems(1) obtain c where
    b: "bucket e groups (B(broker_ID c \<mapsto> c))
           (AList.update (broker_ID c)
              ((case map_of G (broker_ID c) of None \<Rightarrow> [] | Some grps \<Rightarrow> grps) @ [g]) G) = Inr (B', G')"
    by (rule bucket_Cons_Inr)
  show ?case
    using Cons.prems(2) by (intro Cons.IH [OF b]) (simp add: distinct_update)
qed

lemma bucket_keys:
  "bucket e groups B G = Inr (B', G') \<Longrightarrow>
     fst ` set G' = fst ` set G \<union> {i. \<exists>g\<in>set groups. coordinator_ID e g = Some i}"
proof (induction groups arbitrary: B G)
  case Nil
  then show ?case by simp
next
  case (Cons g groups)
  from Cons.prems(1) obtain c where c: "Coordinator e g = Inr c" and
    "bucket e groups (B(broker_ID c \<mapsto> c))
           (AList.update (broker_ID c)
              ((case map_of G (broker_ID c) of None \<Rightarrow> [] | Some grps \<Rightarrow> grps) @ [g]) G) = Inr (B', G')"
    by (rule bucket_Cons_Inr)
  from Cons.IH [OF this(2)] c show ?case
    by (auto simp add: dom_update coordinator_ID_def)
qed

lemma bucket_dom:
  "bucket e groups B G = Inr (B', G') \<Longrightarrow>
     dom B' = dom B \<union> {i. \<exists>g\<in>set groups. coordinator_ID e g = Some i}"
proof (induction groups arbitrary: B G)
  case Nil
  then show ?case by simp
next
  case (Cons g groups)
  from Cons.prems(1) obtain c where c: "Coordinator e g = Inr c" and
    "bucket e groups (B(broker_ID c \<mapsto> c))
           (AList.update (broker_ID c)
              ((case map_of G (broker_ID c) of None \<Rightarrow> [] | Some grps \<Rightarrow> grps) @ [g]) G) = Inr (B', G')"
    by (rule bucket_Cons_Inr)
  from Cons.IH [OF this(2)] c show ?case
    by (auto simp add: coordinator_ID_def split: if_splits)
qed

lemma bucket_handles:
  "bucket e groups B G = Inr (B', G') \<Longrightarrow> (\<And>i b. B i = Some b \<Longrightarrow> broker_ID b = i) \<Longrightarrow>
     B' i = Some b \<Longrightarrow> broker_ID b = i"
proof (induction groups arbitrary: B G)
  case Nil
  then show ?case by simp
next
  case (Cons g groups)
  from Cons.prems(1) obtain c where c: "Coordinator e g = Inr c" and
    b: "bucket e groups (B(broker_ID c \<mapsto> c))
           (AList.update (broker_ID c)
              ((case map_of G (broker_ID c) of None \<Rightarrow> [] | Some grps \<Rightarrow> grps) @ [g]) G) = Inr (B', G')"
    by (rule bucket_Cons_Inr)
  show ?case
  proof (rule Cons.IH [OF b _ Cons.prems(3)])
    fix j d
    assume "(B(broker_ID c \<mapsto> c)) j = Some d"
    then show "broker_ID d = j"
      using Cons.prems(2) by (auto split: if_splits)
  qed
qed

lemma bucket_mset:
  "bucket e groups B G = Inr (B', G') \<Longrightarrow>
     mset (concat (map snd G')) = mset (concat (map snd G)) + mset groups"
proof (induction groups arbitrary: B G)
  case Nil
  then show ?case by simp
next
  case (Cons g groups)
  from Cons.prems(1) obtain c where c: "Coordinator e g = Inr c" and
    b: "bucket e groups (B(broker_ID c \<mapsto> c))
           (AList.update (broker_ID c)
              ((case map_of G (broker_ID c) of None \<Rightarrow> [] | Some grps \<Rightarrow> grps) @ [g]) G) = Inr (B', G')"
    by (rule bucket_Cons_Inr)
  from Cons.IH [OF b] show ?case
    by (simp add: append_to_batch_mset)
qed

lemma bucket_batches:
  "bucket e groups B G = Inr (B', G') \<Longrightarrow>
     (\<And>i grps g. (i, grps) \<in> set G \<Longrightarrow> g \<in> set grps \<Longrightarrow> coordinator_ID e g = Some i) \<Longrightarrow>
     (i, grps) \<in> set G' \<Longrightarrow> g \<in> set grps \<Longrightarrow> coordinator_ID e g = Some i"
proof (induction groups arbitrary: B G)
  case Nil
  then show ?case by simp
next
  case (Cons g0 groups)
  from Cons.prems(1) obtain c where c: "Coordinator e g0 = Inr c" and
    b: "bucket e groups (B(broker_ID c \<mapsto> c))
           (AList.update (broker_ID c)
              ((case map_of G (broker_ID c) of None \<Rightarrow> [] | Some grps \<Rightarrow> grps) @ [g0]) G) = Inr (B', G')"
    by (rule bucket_Cons_Inr)
  show ?case
  proof (rule Cons.IH [OF b _ Cons.prems(3,4)])
    fix j grps' g'
    assume "(j, grps') \<in> set (AList.update (broker_ID c)
              ((case map_of G (broker_ID c) of None \<Rightarrow> [] | Some grps \<Rightarrow> grps) @ [g0]) G)"
      and "g' \<in> set grps'"
    then have "(j = broker_ID c \<and> g' = g0) \<or> (\<exists>grps''. (j, grps'') \<in> set G \<and> g' \<in> set grps'')"
      by (rule append_to_batch_members)
    then show "coordinator_ID e g' = Some j"
      using c Cons.prems(2) by (auto simp: coordinator_ID_def)
  qed
qed

lemma bucket_Inl:
  "bucket e groups B G = Inl x \<longleftrightarrow>
     (\<exists>pre g post. groups = pre @ g # post \<and> resolves e pre \<and> Coordinator e g = Inl x)"
proof (induction groups arbitrary: B G)
  case Nil
  then show ?case by simp
next
  case (Cons g0 groups)
  show ?case
  proof (cases "Coordinator e g0")
    case (Inl y)
    have "(\<exists>pre g post. g0 # groups = pre @ g # post \<and> resolves e pre \<and> Coordinator e g = Inl x) \<longleftrightarrow> y = x"
    proof
      assume "\<exists>pre g post. g0 # groups = pre @ g # post \<and> resolves e pre \<and> Coordinator e g = Inl x"
      then obtain pre g post where *: "g0 # groups = pre @ g # post" "resolves e pre" "Coordinator e g = Inl x"
        by blast
      show "y = x"
      proof (cases pre)
        case Nil
        with * Inl show ?thesis by simp
      next
        case (Cons p ps)
        with * Inl show ?thesis by (simp add: resolves_def)
      qed
    next
      assume "y = x"
      with Inl have "g0 # groups = [] @ g0 # groups \<and> resolves e [] \<and> Coordinator e g0 = Inl x"
        by (simp add: resolves_def)
      then show "\<exists>pre g post. g0 # groups = pre @ g # post \<and> resolves e pre \<and> Coordinator e g = Inl x"
        by blast
    qed
    with Inl show ?thesis by simp
  next
    case (Inr c)
    have "(\<exists>pre g post. g0 # groups = pre @ g # post \<and> resolves e pre \<and> Coordinator e g = Inl x) \<longleftrightarrow>
          (\<exists>pre g post. groups = pre @ g # post \<and> resolves e pre \<and> Coordinator e g = Inl x)"
    proof
      assume "\<exists>pre g post. g0 # groups = pre @ g # post \<and> resolves e pre \<and> Coordinator e g = Inl x"
      then obtain pre g post where *: "g0 # groups = pre @ g # post" "resolves e pre" "Coordinator e g = Inl x"
        by blast
      show "\<exists>pre g post. groups = pre @ g # post \<and> resolves e pre \<and> Coordinator e g = Inl x"
      proof (cases pre)
        case Nil
        with * Inr show ?thesis by simp
      next
        case (Cons p ps)
        with * have "groups = ps @ g # post \<and> resolves e ps \<and> Coordinator e g = Inl x"
          by (simp add: resolves_def)
        then show ?thesis by blast
      qed
    next
      assume "\<exists>pre g post. groups = pre @ g # post \<and> resolves e pre \<and> Coordinator e g = Inl x"
      then obtain pre g post where *: "groups = pre @ g # post" "resolves e pre" "Coordinator e g = Inl x"
        by blast
      with Inr have "g0 # groups = (g0 # pre) @ g # post \<and> resolves e (g0 # pre) \<and> Coordinator e g = Inl x"
        by (simp add: resolves_def)
      then show "\<exists>pre g post. g0 # groups = pre @ g # post \<and> resolves e pre \<and> Coordinator e g = Inl x"
        by blast
    qed
    with Inr Cons.IH show ?thesis by (simp add: Let_def)
  qed
qed

lemma requests_Inr:
  "requests B G = Inr reqs \<longleftrightarrow>
     list_all2 (\<lambda>(i, grps) (b, grps'). B i = Some b \<and> grps' = grps) G reqs"
proof
  show "requests B G = Inr reqs \<Longrightarrow>
     list_all2 (\<lambda>(i, grps) (b, grps'). B i = Some b \<and> grps' = grps) G reqs"
  proof (induction G arbitrary: reqs)
    case Nil
    then show ?case by simp
  next
    case (Cons p G)
    obtain i grps where p: "p = (i, grps)" by (cases p)
    from Cons.prems p obtain b rest where
      "B i = Some b" "requests B G = Inr rest" "reqs = (b, grps) # rest"
      by (auto split: option.splits sum.splits)
    with Cons.IH [of rest] p show ?case by simp
  qed
  show "list_all2 (\<lambda>(i, grps) (b, grps'). B i = Some b \<and> grps' = grps) G reqs \<Longrightarrow>
     requests B G = Inr reqs"
    by (induction G reqs rule: list_all2_induct) auto
qed

lemma requests_total:
  "fst ` set G \<subseteq> dom B \<Longrightarrow> \<exists>reqs. requests B G = Inr reqs"
  by (induction G) (auto split: option.splits)

lemma aggregate_Cons:
  "aggregate e s i (d # resCh) descriptions =
     (if takes_ctx_case s i then ([Error_context_cancelled], Inl ContextCancelled)
      else
        (case Err d of
           Some x \<Rightarrow> ([], Inl (BrokerDescribeFailed (BrokerID d) x))
         | None \<Rightarrow>
             (case snd (convertSaramaGroupDescriptions e (Groups d)) of
                Inl x \<Rightarrow> (fst (convertSaramaGroupDescriptions e (Groups d)), Inl x)
              | Inr converted \<Rightarrow>
                  (fst (convertSaramaGroupDescriptions e (Groups d))
                     @ fst (aggregate e s (Suc i) resCh (descriptions @ converted)),
                   snd (aggregate e s (Suc i) resCh (descriptions @ converted))))))"
  by (cases "convertSaramaGroupDescriptions e (Groups d)")
     (auto split: prod.splits sum.splits option.splits)

declare aggregate.simps(2) [simp del]

lemma aggregate_good_prefix:
  assumes "list_all2 (converts_to e) pre cs"
    and "\<forall>j<length pre. \<not> takes_ctx_case s (i + j)"
  shows "aggregate e s i (pre @ rest) acc =
     (conversion_log e pre @ fst (aggregate e s (i + length pre) rest (acc @ concat cs)),
      snd (aggregate e s (i + length pre) rest (acc @ concat cs)))"
  using assms
proof (induction pre cs arbitrary: i acc rule: list_all2_induct)
  case Nil
  then show ?case by (simp add: conversion_log_def)
next
  case (Cons d pre c cs)
  have 0: "\<not> takes_ctx_case s i" using Cons.prems by force
  have "\<forall>j<length pre. \<not> takes_ctx_case s (Suc i + j)"
    using Cons.prems by (metis Suc_less_eq add_Suc_right add_Suc length_Cons)
  from Cons.IH [OF this] Cons.hyps(1) 0 show ?case
    by (simp add: aggregate_Cons converts_to_def conversion_log_def)
qed

lemma aggregate_Inr:
  "snd (aggregate e s i ds acc) = Inr out \<longleftrightarrow>
     (\<forall>j\<le>length ds. \<not> takes_ctx_case s (i + j)) \<and>
     (\<exists>cs. list_all2 (converts_to e) ds cs \<and> out = acc @ concat cs)"
proof
  show "snd (aggregate e s i ds acc) = Inr out \<Longrightarrow>
     (\<forall>j\<le>length ds. \<not> takes_ctx_case s (i + j)) \<and>
     (\<exists>cs. list_all2 (converts_to e) ds cs \<and> out = acc @ concat cs)"
  proof (induction ds arbitrary: i acc)
    case Nil
    then show ?case by (simp split: if_splits)
  next
    case (Cons d ds)
    from Cons.prems obtain c where
      0: "\<not> takes_ctx_case s i" and c: "converts_to e d c"
      and r: "snd (aggregate e s (Suc i) ds (acc @ c)) = Inr out"
      by (auto simp add: aggregate_Cons converts_to_def split: if_splits option.splits sum.splits)
    from Cons.IH [OF r] obtain cs where
      ctx: "\<forall>j\<le>length ds. \<not> takes_ctx_case s (Suc i + j)"
      and cs: "list_all2 (converts_to e) ds cs" "out = (acc @ c) @ concat cs"
      by blast
    have "\<forall>j\<le>length (d # ds). \<not> takes_ctx_case s (i + j)"
    proof (intro allI impI)
      fix j assume "j \<le> length (d # ds)"
      then show "\<not> takes_ctx_case s (i + j)"
        using 0 ctx by (cases j) simp_all
    qed
    moreover have "list_all2 (converts_to e) (d # ds) (c # cs) \<and> out = acc @ concat (c # cs)"
      using c cs by simp
    ultimately show ?case by blast
  qed
  show "(\<forall>j\<le>length ds. \<not> takes_ctx_case s (i + j)) \<and>
     (\<exists>cs. list_all2 (converts_to e) ds cs \<and> out = acc @ concat cs) \<Longrightarrow>
     snd (aggregate e s i ds acc) = Inr out"
  proof -
    assume a: "(\<forall>j\<le>length ds. \<not> takes_ctx_case s (i + j)) \<and>
     (\<exists>cs. list_all2 (converts_to e) ds cs \<and> out = acc @ concat cs)"
    then obtain cs where cs: "list_all2 (converts_to e) ds cs" "out = acc @ concat cs" by blast
    from a have "\<forall>j<length ds. \<not> takes_ctx_case s (i + j)" by simp
    from aggregate_good_prefix [OF cs(1) this, of "[]" acc] a cs(2)
    show ?thesis by simp
  qed
qed

lemma aggregate_log:
  "snd (aggregate e s i ds acc) = Inr out \<Longrightarrow> fst (aggregate e s i ds acc) = conversion_log e ds"
proof -
  assume a: "snd (aggregate e s i ds acc) = Inr out"
  then obtain cs where cs: "list_all2 (converts_to e) ds cs"
    and ctx: "\<forall>j\<le>length ds. \<not> takes_ctx_case s (i + j)"
    unfolding aggregate_Inr by blast
  from ctx have "\<forall>j<length ds. \<not> takes_ctx_case s (i + j)" by simp
  from aggregate_good_prefix [OF cs this, of "[]" acc] ctx show ?thesis by simp
qed

lemma good_prefix_converts:
  "\<forall>d\<in>set pre. good_outcome e d \<Longrightarrow> \<exists>cs. list_all2 (converts_to e) pre cs"
  by (induction pre) (auto simp: good_outcome_def list_all2_Cons1)

lemma resolved_requests:
  assumes "resolves e groups"
  obtains B G where "bucket e groups Map.empty [] = Inr (B, G)"
    and "requests B G = Inr (issued_requests e groups)"
proof -
  from assms obtain B G where b: "bucket e groups Map.empty [] = Inr (B, G)"
    using resolves_bucket [of e groups Map.empty "[]"] by auto
  have "fst ` set G \<subseteq> dom B"
    using bucket_keys [OF b] bucket_dom [OF b] by simp
  then obtain reqs where r: "requests B G = Inr reqs"
    using requests_total by blast
  with b have "issued_requests e groups = reqs"
    by (simp add: issued_requests_def)
  with b r that show ?thesis by simp
qed

lemma DescribeConsumerGroups_resolved:
  assumes "resolves e groups"
  shows "DescribeConsumerGroups e s groups =
     (case aggregate e s 0 (arrival s (outcomes e groups)) [] of
        (logged, Inl x) \<Rightarrow> (logged, Inl x)
      | (logged, Inr descriptions) \<Rightarrow> (logged, Inr (sort_descriptions e descriptions)))"
proof -
  from assms obtain B G where "bucket e groups Map.empty [] = Inr (B, G)"
    and "requests B G = Inr (issued_requests e groups)"
    by (rule resolved_requests)
  then show ?thesis
    by (simp add: DescribeConsumerGroups_def outcomes_def)
qed

lemma DescribeConsumerGroups_unresolved:
  assumes "\<not> resolves e groups"
  obtains x pre g post where "DescribeConsumerGroups e s groups = ([], Inl x)"
    and "groups = pre @ g # post" and "resolves e pre" and "Coordinator e g = Inl x"
    and "issued_requests e groups = []"
proof -
  from assms obtain x where b: "bucket e groups Map.empty [] = Inl x"
    using bucket_resolves [of e groups Map.empty "[]"]
    by (cases "bucket e groups Map.empty []") auto
  then obtain pre g post where "groups = pre @ g # post" "resolves e pre" "Coordinator e g = Inl x"
    unfolding bucket_Inl by blast
  moreover from b have "DescribeConsumerGroups e s groups = ([], Inl x)"
    by (simp add: DescribeConsumerGroups_def)
  moreover from b have "issued_requests e groups = []"
    by (simp add: issued_requests_def)
  ultimately show ?thesis using that by blast
qed

lemma DescribeConsumerGroups_Inr:
  "snd (DescribeConsumerGroups e s groups) = Inr out \<longleftrightarrow>
     resolves e groups \<and>
     (\<forall>j\<le>length (arrival s (outcomes e groups)). \<not> takes_ctx_case s j) \<and>
     (\<exists>cs. list_all2 (converts_to e) (arrival s (outcomes e groups)) cs \<and>
        out = sort_descriptions e (concat cs))"
proof (cases "resolves e groups")
  case False
  then show ?thesis
    by (auto elim: DescribeConsumerGroups_unresolved [of e groups s])
next
  case True
  have "snd (DescribeConsumerGroups e s groups) = Inr out \<longleftrightarrow>
      (\<exists>ds. snd (aggregate e s 0 (arrival s (outcomes e groups)) []) = Inr ds \<and>
         out = sort_descriptions e ds)"
    by (cases "aggregate e s 0 (arrival s (outcomes e groups)) []")
       (auto simp add: DescribeConsumerGroups_resolved [OF True] split: sum.splits)
  with True show ?thesis
    by (auto simp add: aggregate_Inr)
qed

lemma issued_requests_batches:
  assumes "resolves e groups"
  shows "distinct (map (\<lambda>(b, grps). broker_ID b) (issued_requests e groups))"
    and "set (map (\<lambda>(b, grps). broker_ID b) (issued_requests e groups)) =
           {i. \<exists>g\<in>set groups. coordinator_ID e g = Some i}"
    and "mset (concat (map snd (issued_requests e groups))) = mset groups"
    and "\<And>b grps g. (b, grps) \<in> set (issued_requests e groups) \<Longrightarrow> g \<in> set grps \<Longrightarrow>
           coordinator_ID e g = Some (broker_ID b)"
proof -
  from assms obtain B G where b: "bucket e groups Map.empty [] = Inr (B, G)"
    and r: "requests B G = Inr (issued_requests e groups)"
    by (rule resolved_requests)
  have h: "\<And>i c. B i = Some c \<Longrightarrow> broker_ID c = i"
    using bucket_handles [OF b] by simp
  from r have l: "list_all2 (\<lambda>(i, grps) (b, grps'). B i = Some b \<and> grps' = grps) G
      (issued_requests e groups)"
    by (simp add: requests_Inr)
  have ids: "map (\<lambda>(b, grps). broker_ID b) (issued_requests e groups) = map fst G"
    using l by (induction rule: list_all2_induct) (auto dest: h)
  have grps: "map snd (issued_requests e groups) = map snd G"
    using l by (induction rule: list_all2_induct) auto
  show "distinct (map (\<lambda>(b, grps). broker_ID b) (issued_requests e groups))"
    using bucket_distinct [OF b] ids by simp
  show "set (map (\<lambda>(b, grps). broker_ID b) (issued_requests e groups)) =
           {i. \<exists>g\<in>set groups. coordinator_ID e g = Some i}"
    using bucket_keys [OF b] ids by simp
  show "mset (concat (map snd (issued_requests e groups))) = mset groups"
    using bucket_mset [OF b] grps by simp
  fix c grps g
  assume m: "(c, grps) \<in> set (issued_requests e groups)" "g \<in> set grps"
  from l m(1) obtain i where "(i, grps) \<in> set G" "B i = Some c"
    by (induction rule: list_all2_induct) auto
  with m(2) bucket_batches [OF b, of i grps g] h show "coordinator_ID e g = Some (broker_ID c)"
    by auto
qed

lemma sorts_by_sort_key:
  assumes "sorts_by key srt" "distinct (map key xs)"
  shows "srt xs = sort_key key xs"
proof (rule sorted_keys_unique)
  show "mset (srt xs) = mset (sort_key key xs)" using assms(1) by (simp add: sorts_by_mset)
  show "sorted (map key (srt xs))" using assms(1) by (rule sorts_by_sorted)
  show "sorted (map key (sort_key key xs))" by simp
  have "mset (map key (srt xs)) = mset (map key xs)" using assms(1) by (simp add: sorts_by_mset)
  then show "distinct (map key (srt xs))" using assms(2) by (metis mset_eq_imp_distinct_iff)
qed

lemma sorts_by_single: "sorts_by key srt \<Longrightarrow> srt [x] = [x]"
  using sorts_by_mset [of key srt "[x]"] by simp

lemma delivers_single: "delivers_all s \<Longrightarrow> arrival s [d] = [d]"
  using delivers_all_def [of s]
  by (metis mset_single_iff_right mset.simps(1) mset.simps(2) add_mset_eq_single)

lemma list_all2_in_set1: "list_all2 R xs ys \<Longrightarrow> x \<in> set xs \<Longrightarrow> \<exists>y\<in>set ys. R x y"
  by (induction rule: list_all2_induct) auto

lemma list_all2_in_set2: "list_all2 R xs ys \<Longrightarrow> y \<in> set ys \<Longrightarrow> \<exists>x\<in>set xs. R x y"
  by (induction rule: list_all2_induct) auto

lemma list_all2_ex: "(\<exists>ys. list_all2 R xs ys) \<longleftrightarrow> (\<forall>x\<in>set xs. \<exists>y. R x y)"
proof
  show "\<exists>ys. list_all2 R xs ys \<Longrightarrow> \<forall>x\<in>set xs. \<exists>y. R x y"
    using list_all2_in_set1 by fastforce
  show "\<forall>x\<in>set xs. \<exists>y. R x y \<Longrightarrow> \<exists>ys. list_all2 R xs ys"
    by (induction xs) (auto simp: list_all2_Cons1)
qed

lemma mset_concat_map_pointwise:
  "\<forall>x\<in>set xs. mset (f x) = mset (g x) \<Longrightarrow> mset (concat (map f xs)) = mset (concat (map g xs))"
  by (induction xs) simp_all

lemma delivers_length: "delivers_all s \<Longrightarrow> length (arrival s ds) = length ds"
  by (metis delivers_all_def size_mset)

lemma delivers_set: "delivers_all s \<Longrightarrow> set (arrival s ds) = set ds"
  by (metis delivers_all_def set_mset_mset)

lemma convertGroupMember_decoded:
  assumes "GetMemberAssignment m = (Some topics, failure)"
  shows "convertGroupMember e ''consumer'' (id', m) =
     ((case failure of None \<Rightarrow> [] | Some x \<Rightarrow> [Warn_decode_failed (ClientId m) x]),
      Inr \<lparr>ID = id', ClientID = ClientId m, ClientHost = raw_ClientHost m,
           Assignments = sort_assignments e
             (map (\<lambda>(topic, partitionIDs).
                     \<lparr>TopicName = topic, PartitionIDs = sort_partitionIDs e partitionIDs\<rparr>)
                  topics)\<rparr>)"
  using assms by (simp add: convertGroupMember_def)

lemma convertGroupMember_assignments:
  assumes "sorting_env e" and "snd (convertGroupMember e pt (id', m)) = Inr member"
  shows "ID member = id'"
    and "sorted (map TopicName (Assignments member))"
    and "\<forall>a\<in>set (Assignments member). sorted (map sint (PartitionIDs a))"
    and "mset (map (\<lambda>a. (TopicName a, mset (PartitionIDs a))) (Assignments member)) =
           mset (map (\<lambda>(topic, partitionIDs). (topic, mset partitionIDs)) (decoded_topics pt m))"
proof -
  have sp: "sorts_by sint (sort_partitionIDs e)" and sa: "sorts_by TopicName (sort_assignments e)"
    using assms(1) by (simp_all add: sorting_env_def)
  let ?mk = "\<lambda>(topic, partitionIDs).
                     \<lparr>TopicName = topic, PartitionIDs = sort_partitionIDs e partitionIDs\<rparr>"
  from assms(2) have m: "ID member = id' \<and>
      Assignments member = sort_assignments e (map ?mk (decoded_topics pt m))"
    by (cases "GetMemberAssignment m")
       (auto simp add: convertGroupMember_def decoded_topics_def split: if_splits option.splits)
  then show "ID member = id'" by simp
  from m sa show "sorted (map TopicName (Assignments member))"
    by (simp add: sorts_by_sorted)
  from m sa have "set (Assignments member) = set (map ?mk (decoded_topics pt m))"
    by (simp add: sorts_by_set)
  with sp show "\<forall>a\<in>set (Assignments member). sorted (map sint (PartitionIDs a))"
    by (auto simp add: sorts_by_sorted)
  have "mset (map (\<lambda>a. (TopicName a, mset (PartitionIDs a))) (Assignments member)) =
      image_mset (\<lambda>a. (TopicName a, mset (PartitionIDs a))) (mset (map ?mk (decoded_topics pt m)))"
    using m sa by (simp add: sorts_by_mset)
  also have "\<dots> = mset (map (\<lambda>(topic, partitionIDs). (topic, mset partitionIDs)) (decoded_topics pt m))"
    using sp by (simp add: sorts_by_mset case_prod_unfold image_mset.compositionality comp_def)
  finally show "mset (map (\<lambda>a. (TopicName a, mset (PartitionIDs a))) (Assignments member)) =
           mset (map (\<lambda>(topic, partitionIDs). (topic, mset partitionIDs)) (decoded_topics pt m))" .
qed

lemma convertSaramaGroupDescriptions_fst_Cons:
  "snd (convertSaramaGroupDescriptions e (d # ds)) = Inr out \<Longrightarrow>
   fst (convertSaramaGroupDescriptions e (d # ds)) =
     fst (convertGroupMembers e (raw_Members d) (raw_ProtocolType d))
       @ fst (convertSaramaGroupDescriptions e ds)"
  by (cases "convertGroupMembers e (raw_Members d) (raw_ProtocolType d)";
      cases "convertSaramaGroupDescriptions e ds")
     (auto simp add: convertSaramaGroupDescriptions.simps(2) split: if_splits sum.splits)

lemma convertSaramaGroupDescriptions_log:
  "snd (convertSaramaGroupDescriptions e ds) = Inr out \<Longrightarrow>
     fst (convertSaramaGroupDescriptions e ds) =
       concat (map (\<lambda>d. fst (convertGroupMembers e (raw_Members d) (raw_ProtocolType d))) ds)"
proof (induction ds arbitrary: out)
  case Nil
  then show ?case by simp
next
  case (Cons d ds)
  from Cons.prems obtain out' where "snd (convertSaramaGroupDescriptions e ds) = Inr out'"
    by (auto simp add: convertSaramaGroupDescriptions_snd_Cons split: if_splits sum.splits)
  from Cons.IH [OF this] convertSaramaGroupDescriptions_fst_Cons [OF Cons.prems]
  show ?case by simp
qed

lemma convertSaramaGroupDescriptions_first_error:
  "list_all2 (group_converts e) before cs \<Longrightarrow> raw_Err raw \<noteq> ErrNoError \<Longrightarrow>
     snd (convertSaramaGroupDescriptions e (before @ raw # after)) = Inl (GroupError (raw_Err raw))"
  by (induction rule: list_all2_induct)
     (auto simp add: convertSaramaGroupDescriptions_snd_Cons group_converts_def)

lemma group_converts_iff:
  "(\<exists>g. group_converts e d g) \<longleftrightarrow>
     raw_Err d = ErrNoError \<and> (\<forall>entry\<in>set (raw_Members d). \<not> decodes_to_nil (raw_ProtocolType d) entry)"
proof -
  have "(\<exists>members. snd (convertGroupMembers e (raw_Members d) (raw_ProtocolType d)) = Inr members)
      \<longleftrightarrow> (\<forall>entry\<in>set (raw_Members d). \<not> decodes_to_nil (raw_ProtocolType d) entry)"
    using convertGroupMembers_Inl [of e "raw_Members d" "raw_ProtocolType d"]
    by (cases "snd (convertGroupMembers e (raw_Members d) (raw_ProtocolType d))") auto
  then show ?thesis
    by (auto simp add: group_converts_def)
qed

lemma group_converts_members:
  "group_converts e d g \<Longrightarrow>
     list_all2 (\<lambda>entry member. snd (convertGroupMember e (raw_ProtocolType d) entry) = Inr member)
       (raw_Members d) (Members g)"
  by (auto simp add: group_converts_def convertGroupMembers_Inr)

lemma good_outcome_iff:
  "good_outcome e d \<longleftrightarrow>
     Err d = None \<and>
     (\<forall>g\<in>set (Groups d). raw_Err g = ErrNoError \<and>
        (\<forall>entry\<in>set (raw_Members g). \<not> decodes_to_nil (raw_ProtocolType g) entry))"
  by (simp add: good_outcome_def converts_to_def convertSaramaGroupDescriptions_Inr
      list_all2_ex group_converts_iff)

lemma outcome_of_request:
  assumes "good_outcome e (worker b grps)"
  obtains raw where "DescribeGroups b grps = Inr raw" and "Groups (worker b grps) = raw"
  using assms by (cases "DescribeGroups b grps") (auto simp add: worker_def good_outcome_def converts_to_def)

lemma outcomes_unresolved: "\<not> resolves e groups \<Longrightarrow> outcomes e groups = []"
  by (erule DescribeConsumerGroups_unresolved [of e groups]) (simp add: outcomes_def)

lemma aggregate_ctx:
  "takes_ctx_case s i \<Longrightarrow>
     aggregate e s i ds acc = ([Error_context_cancelled], Inl ContextCancelled)"
  by (cases ds) (simp_all add: aggregate_Cons)

lemma DescribeConsumerGroups_succeeds:
  assumes "delivers_all s"
  shows "(\<exists>out. snd (DescribeConsumerGroups e s groups) = Inr out) \<longleftrightarrow> nothing_fatal e s groups"
proof -
  have "(\<exists>cs. list_all2 (converts_to e) (arrival s (outcomes e groups)) cs) \<longleftrightarrow>
      (\<forall>d\<in>set (outcomes e groups). good_outcome e d)"
    by (simp add: list_all2_ex good_outcome_def delivers_set [OF assms])
  then show ?thesis
    by (auto simp add: DescribeConsumerGroups_Inr nothing_fatal_def delivers_length [OF assms]
        good_outcome_iff)
qed

lemma DescribeConsumerGroups_output:
  assumes "delivers_all s" and "sorts_by GroupID (sort_descriptions e)"
    and "snd (DescribeConsumerGroups e s groups) = Inr out"
  shows "set out = {g. \<exists>d\<in>set (outcomes e groups). \<exists>raw\<in>set (Groups d). group_converts e raw g}"
proof -
  from assms(3) obtain cs where cs: "list_all2 (converts_to e) (arrival s (outcomes e groups)) cs"
    and out: "out = sort_descriptions e (concat cs)"
    unfolding DescribeConsumerGroups_Inr by blast
  have "set out = set (concat cs)"
    unfolding out using assms(2) by (rule sorts_by_set)
  also have "\<dots> = {g. \<exists>d\<in>set (outcomes e groups). \<exists>raw\<in>set (Groups d). group_converts e raw g}"
  proof (intro set_eqI iffI)
    fix g assume "g \<in> set (concat cs)"
    then obtain c where c: "c \<in> set cs" "g \<in> set c" by auto
    from list_all2_in_set2 [OF cs c(1)] obtain d where
      d: "d \<in> set (arrival s (outcomes e groups))" "converts_to e d c" by blast
    then have "list_all2 (group_converts e) (Groups d) c"
      by (simp add: converts_to_def convertSaramaGroupDescriptions_Inr)
    from list_all2_in_set2 [OF this c(2)] d(1)
    show "g \<in> {g. \<exists>d\<in>set (outcomes e groups). \<exists>raw\<in>set (Groups d). group_converts e raw g}"
      by (auto simp add: delivers_set [OF assms(1)])
  next
    fix g assume "g \<in> {g. \<exists>d\<in>set (outcomes e groups). \<exists>raw\<in>set (Groups d). group_converts e raw g}"
    then obtain d raw where d: "d \<in> set (arrival s (outcomes e groups))"
      and raw: "raw \<in> set (Groups d)" "group_converts e raw g"
      by (auto simp add: delivers_set [OF assms(1)])
    from list_all2_in_set1 [OF cs d] obtain c where c: "c \<in> set cs" "converts_to e d c" by blast
    then have "list_all2 (group_converts e) (Groups d) c"
      by (simp add: converts_to_def convertSaramaGroupDescriptions_Inr)
    from list_all2_in_set1 [OF this raw(1)] obtain g' where "g' \<in> set c" "group_converts e raw g'"
      by blast
    with raw(2) have "g \<in> set c" using group_converts_unique by blast
    with c(1) show "g \<in> set (concat cs)" by auto
  qed
  finally show ?thesis .
qed

lemma DescribeConsumerGroups_log:
  assumes "snd (DescribeConsumerGroups e s groups) = Inr out"
  shows "fst (DescribeConsumerGroups e s groups) = conversion_log e (arrival s (outcomes e groups))"
proof -
  from assms have r: "resolves e groups"
    unfolding DescribeConsumerGroups_Inr by simp
  from assms obtain ds where "snd (aggregate e s 0 (arrival s (outcomes e groups)) []) = Inr ds"
    by (cases "aggregate e s 0 (arrival s (outcomes e groups)) []")
       (auto simp add: DescribeConsumerGroups_resolved [OF r] split: sum.splits)
  from aggregate_log [OF this] this show ?thesis
    by (cases "aggregate e s 0 (arrival s (outcomes e groups)) []")
       (auto simp add: DescribeConsumerGroups_resolved [OF r] split: sum.splits)
qed

lemma conversion_log_member:
  assumes "good_outcome e d" and "d \<in> set ds" and "g \<in> set (Groups d)"
    and "entry \<in> set (raw_Members g)"
    and "w \<in> set (fst (convertGroupMember e (raw_ProtocolType g) entry))"
  shows "w \<in> set (conversion_log e ds)"
proof -
  from assms(1) obtain c where c: "snd (convertSaramaGroupDescriptions e (Groups d)) = Inr c"
    by (auto simp add: good_outcome_def converts_to_def)
  then have "list_all2 (group_converts e) (Groups d) c"
    by (simp add: convertSaramaGroupDescriptions_Inr)
  from list_all2_in_set1 [OF this assms(3)] obtain members where
    "snd (convertGroupMembers e (raw_Members g) (raw_ProtocolType g)) = Inr members"
    by (auto simp add: group_converts_def)
  from convertGroupMembers_log [OF this] assms(4,5)
  have "w \<in> set (fst (convertGroupMembers e (raw_Members g) (raw_ProtocolType g)))"
    by auto
  with assms(3) have "w \<in> set (fst (convertSaramaGroupDescriptions e (Groups d)))"
    unfolding convertSaramaGroupDescriptions_log [OF c] by auto
  with assms(2) show ?thesis
    by (auto simp add: conversion_log_def)
qed

lemma DescribeConsumerGroups_fails:
  assumes "delivers_all s" and "d \<in> set (outcomes e groups)" and "\<not> good_outcome e d"
  shows "\<exists>x. snd (DescribeConsumerGroups e s groups) = Inl x"
proof (cases "snd (DescribeConsumerGroups e s groups)")
  case (Inl x)
  then show ?thesis by simp
next
  case (Inr out)
  then have "nothing_fatal e s groups"
    using DescribeConsumerGroups_succeeds [OF assms(1)] by blast
  with assms(2) have "good_outcome e d"
    by (simp add: nothing_fatal_def good_outcome_iff)
  with assms(3) show ?thesis by simp
qed

lemma DescribeConsumerGroups_first_failure:
  assumes "arrival s (outcomes e groups) = pre @ d # post"
    and "\<forall>d'\<in>set pre. good_outcome e d'" and "\<forall>j\<le>length pre. \<not> takes_ctx_case s j"
    and "outcomes e groups \<noteq> []"
  shows "DescribeConsumerGroups e s groups =
     (case Err d of
        Some x \<Rightarrow> (conversion_log e pre, Inl (BrokerDescribeFailed (BrokerID d) x))
      | None \<Rightarrow>
          (case snd (convertSaramaGroupDescriptions e (Groups d)) of
             Inl x \<Rightarrow> (conversion_log e pre @ fst (convertSaramaGroupDescriptions e (Groups d)), Inl x)
           | Inr converted \<Rightarrow> DescribeConsumerGroups e s groups))"
proof -
  have res: "resolves e groups"
    using assms(4) outcomes_unresolved by blast
  from good_prefix_converts [OF assms(2)] obtain cs where
    cs: "list_all2 (converts_to e) pre cs" ..
  have ctx: "\<forall>j<length pre. \<not> takes_ctx_case s (0 + j)" "\<not> takes_ctx_case s (length pre)"
    using assms(3) by simp_all
  show ?thesis
    using aggregate_good_prefix [OF cs ctx(1), of "d # post" "[]"] ctx(2)
    by (simp add: DescribeConsumerGroups_resolved [OF res] assms(1) aggregate_Cons
        split: option.splits sum.splits)
qed

lemma converts_to_converted: "list_all2 (converts_to e) ds cs \<Longrightarrow> cs = map (converted_groups e) ds"
  by (induction rule: list_all2_induct) (simp_all add: converts_to_def converted_groups_def)

lemma good_outcome_converted:
  "good_outcome e d \<Longrightarrow> list_all2 (group_converts e) (Groups d) (converted_groups e d)"
proof -
  assume "good_outcome e d"
  then obtain c where c: "snd (convertSaramaGroupDescriptions e (Groups d)) = Inr c"
    by (auto simp add: good_outcome_def converts_to_def)
  then have "list_all2 (group_converts e) (Groups d) c"
    by (simp only: convertSaramaGroupDescriptions_Inr)
  with c show ?thesis by (simp add: converted_groups_def)
qed

lemma list_all2_concat:
  "list_all2 (list_all2 R) xss yss \<Longrightarrow> list_all2 R (concat xss) (concat yss)"
  by (induction rule: list_all2_induct) (simp_all add: list_all2_appendI)

lemma insort_key_related:
  assumes "list_all2 R xs ys" and "R x y" and "\<And>a b. R a b \<Longrightarrow> k' b = k a"
  shows "list_all2 R (insort_key k x xs) (insort_key k' y ys)"
  using assms(1)
proof (induction rule: list_all2_induct)
  case Nil
  from assms(2) show ?case by simp
next
  case (Cons a as b bs)
  from assms(2,3) Cons.hyps(1) have "k' y = k x" "k' b = k a" by simp_all
  with Cons assms(2) show ?case by simp
qed

lemma sort_key_related:
  assumes "list_all2 R xs ys" and "\<And>a b. R a b \<Longrightarrow> k' b = k a"
  shows "list_all2 R (sort_key k xs) (sort_key k' ys)"
  using assms(1)
proof (induction rule: list_all2_induct)
  case Nil
  show ?case by simp
next
  case (Cons a as b bs)
  from insort_key_related [OF Cons.IH Cons.hyps(1) assms(2)]
  show ?case by simp
qed

lemma same_member_converts:
  assumes "sorts_by TopicName (sort_assignments e)" and "same_cluster e e'"
    and "same_member entry entry'"
    and "snd (convertGroupMember e pt entry) = Inr member"
    and "snd (convertGroupMember e' pt entry') = Inr member'"
  shows "member' = member"
proof -
  obtain i m where entry: "entry = (i, m)" by (cases entry)
  obtain i' m' where entry': "entry' = (i', m')" by (cases entry')
  let ?mk = "\<lambda>(topic, partitionIDs).
               \<lparr>TopicName = topic, PartitionIDs = sort_partitionIDs e partitionIDs\<rparr>"
  have srt: "sort_partitionIDs e' = sort_partitionIDs e" "sort_assignments e' = sort_assignments e"
    using assms(2) by (simp_all add: same_cluster_def)
  from assms(3) have f: "i' = i" "ClientId m' = ClientId m" "raw_ClientHost m' = raw_ClientHost m"
    and t: "same_topics (fst (GetMemberAssignment m)) (fst (GetMemberAssignment m'))"
    by (simp_all add: same_member_def entry entry')
  show ?thesis
  proof (cases "pt = ''consumer''")
    case False
    with assms(4,5) f srt show ?thesis
      by (auto simp add: convertGroupMember_def entry entry')
  next
    case True
    have "\<not> decodes_to_nil pt entry"
      using assms(4) convertGroupMember_Inl [of e pt entry NilDereference] by simp
    with True obtain topics where a: "fst (GetMemberAssignment m) = Some topics"
      by (auto simp add: decodes_to_nil_def entry)
    with t obtain topics' where a': "fst (GetMemberAssignment m') = Some topics'"
      and d: "distinct (map fst topics)" and p: "mset topics' = mset topics"
      by (auto simp add: same_topics_def split: option.splits)
    have "map TopicName (map ?mk topics) = map fst topics"
      by (simp add: case_prod_unfold comp_def)
    with d have "distinct (map TopicName (map ?mk topics))" by (simp only:)
    moreover have "mset (map ?mk topics) = mset (map ?mk topics')"
      using p by simp
    ultimately have "sort_assignments e (map ?mk topics) = sort_assignments e (map ?mk topics')"
      using assms(1) by (intro sorts_by_unique)
    with assms(4,5) True a a' f srt show ?thesis
      by (cases "GetMemberAssignment m"; cases "GetMemberAssignment m'")
         (auto simp add: convertGroupMember_def entry entry')
  qed
qed

lemma same_group_converts:
  assumes "sorts_by TopicName (sort_assignments e)" and "same_cluster e e'"
    and "same_group d d'" and "group_converts e d g" and "group_converts e' d' g'"
  shows "same_description g g'"
proof -
  let ?pt = "raw_ProtocolType d"
  let ?F = "\<lambda>entry. projr (snd (convertGroupMember e ?pt entry))"
  let ?F' = "\<lambda>entry. projr (snd (convertGroupMember e' ?pt entry))"
  from assms(3) obtain members where
    f: "GroupId d' = GroupId d" "raw_State d' = raw_State d" "raw_ProtocolType d' = ?pt"
       "raw_Protocol d' = raw_Protocol d"
    and p: "mset members = mset (raw_Members d)"
    and r: "list_all2 same_member members (raw_Members d')"
    by (auto simp add: same_group_def)
  have l: "list_all2 (\<lambda>entry member. snd (convertGroupMember e ?pt entry) = Inr member)
      (raw_Members d) (Members g)"
    using assms(4) by (rule group_converts_members)
  have l': "list_all2 (\<lambda>entry member. snd (convertGroupMember e' ?pt entry) = Inr member)
      (raw_Members d') (Members g')"
    using group_converts_members [OF assms(5)] by (simp add: f)
  have m: "Members g = map ?F (raw_Members d)"
    using l by (induction rule: list_all2_induct) simp_all
  have m': "Members g' = map ?F' (raw_Members d')"
    using l' by (induction rule: list_all2_induct) simp_all
  have c: "\<And>entry. entry \<in> set members \<Longrightarrow>
      snd (convertGroupMember e ?pt entry) = Inr (?F entry)"
  proof -
    fix entry assume "entry \<in> set members"
    then have "entry \<in> set (raw_Members d)" using p by (metis set_mset_mset)
    from list_all2_in_set1 [OF l this] show "snd (convertGroupMember e ?pt entry) = Inr (?F entry)"
      by auto
  qed
  have c': "\<And>entry. entry \<in> set (raw_Members d') \<Longrightarrow>
      snd (convertGroupMember e' ?pt entry) = Inr (?F' entry)"
  proof -
    fix entry assume "entry \<in> set (raw_Members d')"
    from list_all2_in_set1 [OF l' this] show "snd (convertGroupMember e' ?pt entry) = Inr (?F' entry)"
      by auto
  qed
  have "map ?F' (raw_Members d') = map ?F members"
    using r c c'
  proof (induction rule: list_all2_induct)
    case Nil
    show ?case by simp
  next
    case (Cons x xs y ys)
    have "?F' y = ?F x"
      using assms(1,2) Cons.hyps(1)
    proof (rule same_member_converts)
      show "snd (convertGroupMember e ?pt x) = Inr (?F x)" using Cons.prems(1) by simp
      show "snd (convertGroupMember e' ?pt y) = Inr (?F' y)" using Cons.prems(2) by simp
    qed
    moreover have "map ?F' ys = map ?F xs"
      using Cons.prems by (intro Cons.IH) simp_all
    ultimately show ?case by simp
  qed
  then have "mset (Members g') = mset (map ?F members)"
    by (simp only: m')
  also have "\<dots> = mset (Members g)"
    using p by (simp add: m)
  finally have "mset (Members g') = mset (Members g)" .
  with assms(4,5) f show ?thesis
    by (auto simp add: same_description_def group_converts_def)
qed

lemma bucket_same_cluster:
  assumes "same_cluster e e'"
  shows "(\<And>i. rel_option same_broker (B i) (B' i)) \<Longrightarrow>
     rel_sum (=) (\<lambda>r r'. snd r' = snd r \<and> (\<forall>i. rel_option same_broker (fst r i) (fst r' i)))
       (bucket e groups B G) (bucket e' groups B' G)"
proof (induction groups arbitrary: B B' G)
  case Nil
  then show ?case by simp
next
  case (Cons g groups)
  from assms have c: "case (Coordinator e g, Coordinator e' g) of
             (Inl x, Inl x') \<Rightarrow> x' = x
           | (Inr b, Inr b') \<Rightarrow> same_broker b b'
           | _ \<Rightarrow> False"
    by (simp add: same_cluster_def)
  show ?case
  proof (cases "Coordinator e g")
    case (Inl x)
    with c show ?thesis by (cases "Coordinator e' g") simp_all
  next
    case (Inr b)
    with c obtain b' where b': "Coordinator e' g = Inr b'" "same_broker b b'"
      by (cases "Coordinator e' g") simp_all
    then have i: "broker_ID b' = broker_ID b" by (simp add: same_broker_def)
    have "rel_option same_broker ((B(broker_ID b \<mapsto> b)) j) ((B'(broker_ID b \<mapsto> b')) j)" for j
      using Cons.prems b'(2) by simp
    note ih = Cons.IH [of "B(broker_ID b \<mapsto> b)" "B'(broker_ID b \<mapsto> b')", OF this]
    let ?G = "AList.update (broker_ID b)
       ((case map_of G (broker_ID b) of None \<Rightarrow> [] | Some grps \<Rightarrow> grps) @ [g]) G"
    have 1: "bucket e (g # groups) B G = bucket e groups (B(broker_ID b \<mapsto> b)) ?G"
      using Inr by (simp add: Let_def)
    have 2: "bucket e' (g # groups) B' G = bucket e' groups (B'(broker_ID b \<mapsto> b')) ?G"
      using b'(1) i by (simp add: Let_def)
    show ?thesis
      unfolding 1 2 by (rule ih)
  qed
qed

lemma requests_same_cluster:
  "(\<And>i. rel_option same_broker (B i) (B' i)) \<Longrightarrow>
     rel_sum (=) (list_all2 (\<lambda>r r'. snd r' = snd r \<and> same_broker (fst r) (fst r')))
       (requests B G) (requests B' G)"
proof (induction G)
  case Nil
  then show ?case by simp
next
  case (Cons p G)
  obtain i grps where p: "p = (i, grps)" by (cases p)
  have r: "rel_option same_broker (B i) (B' i)" by (rule Cons.prems)
  have ih: "rel_sum (=) (list_all2 (\<lambda>r r'. snd r' = snd r \<and> same_broker (fst r) (fst r')))
       (requests B G) (requests B' G)"
    using Cons.prems by (rule Cons.IH)
  show ?case
  proof (cases "B i")
    case None
    with r show ?thesis by (cases "B' i") (simp_all add: p)
  next
    case (Some b)
    with r obtain b' where b': "B' i = Some b'" "same_broker b b'"
      by (cases "B' i") simp_all
    with Some ih show ?thesis
      by (cases "requests B G"; cases "requests B' G") (simp_all add: p)
  qed
qed

lemma issued_requests_same_cluster:
  assumes "same_cluster e e'"
  shows "list_all2 (\<lambda>r r'. snd r' = snd r \<and> same_broker (fst r) (fst r'))
     (issued_requests e groups) (issued_requests e' groups)"
proof -
  have b: "rel_sum (=) (\<lambda>r r'. snd r' = snd r \<and> (\<forall>i. rel_option same_broker (fst r i) (fst r' i)))
       (bucket e groups Map.empty []) (bucket e' groups Map.empty [])"
    using assms by (rule bucket_same_cluster) simp
  show ?thesis
  proof (cases "bucket e groups Map.empty []")
    case (Inl x)
    with b show ?thesis
      by (cases "bucket e' groups Map.empty []") (simp_all add: issued_requests_def)
  next
    case (Inr r)
    with b obtain r' where r': "bucket e' groups Map.empty [] = Inr r'" "snd r' = snd r"
      "\<And>i. rel_option same_broker (fst r i) (fst r' i)"
      by (cases "bucket e' groups Map.empty []") auto
    from requests_same_cluster [of "fst r" "fst r'" "snd r", OF r'(3)] Inr r'(1,2)
    show ?thesis
      by (cases r; cases r'; cases "requests (fst r) (snd r)"; cases "requests (fst r') (snd r)")
         (simp_all add: issued_requests_def)
  qed
qed

lemma outcomes_same_cluster:
  assumes "same_cluster e e'"
  shows "list_all2 same_outcome (outcomes e groups) (outcomes e' groups)"
proof -
  have "\<And>r r'. snd r' = snd r \<and> same_broker (fst r) (fst r') \<Longrightarrow>
      same_outcome (case r of (b, grps) \<Rightarrow> worker b grps) (case r' of (b, grps) \<Rightarrow> worker b grps)"
  proof -
    fix r r' :: "broker \<times> string list"
    assume h: "snd r' = snd r \<and> same_broker (fst r) (fst r')"
    obtain b grps where r: "r = (b, grps)" by (cases r)
    obtain b' grps' where r': "r' = (b', grps')" by (cases r')
    from h r r' have "grps' = grps" "broker_ID b' = broker_ID b"
      "same_answer (DescribeGroups b grps) (DescribeGroups b' grps)"
      by (simp_all add: same_broker_def)
    then show "same_outcome (case r of (b, grps) \<Rightarrow> worker b grps)
        (case r' of (b, grps) \<Rightarrow> worker b grps)"
      by (cases "DescribeGroups b grps"; cases "DescribeGroups b' grps")
         (simp_all add: r r' worker_def same_outcome_def same_answer_def)
  qed
  with issued_requests_same_cluster [OF assms, of groups] show ?thesis
    unfolding outcomes_def list_all2_map1 list_all2_map2
    by (rule list_all2_mono)
qed

lemma converted_same_cluster:
  assumes "sorts_by TopicName (sort_assignments e)" and "same_cluster e e'"
    and "list_all2 same_outcome ds ds'"
    and "\<forall>d\<in>set ds. good_outcome e d" and "\<forall>d\<in>set ds'. good_outcome e' d"
  shows "list_all2 same_description (concat (map (converted_groups e) ds)) (concat (map (converted_groups e') ds'))"
  using assms(3,4,5)
proof (induction rule: list_all2_induct)
  case Nil
  show ?case by simp
next
  case (Cons d ds d' ds')
  have g: "list_all2 (group_converts e) (Groups d) (converted_groups e d)"
    using Cons.prems(1) by (intro good_outcome_converted) simp
  have g': "list_all2 (group_converts e') (Groups d') (converted_groups e' d')"
    using Cons.prems(2) by (intro good_outcome_converted) simp
  have s: "list_all2 same_group (Groups d) (Groups d')"
    using Cons.hyps(1) by (simp add: same_outcome_def)
  have "list_all2 same_description (converted_groups e d) (converted_groups e' d')"
  proof (rule list_all2_all_nthI)
    show "length (converted_groups e d) = length (converted_groups e' d')"
      using g g' s by (simp add: list_all2_lengthD [symmetric])
  next
    fix n assume n: "n < length (converted_groups e d)"
    then have n': "n < length (Groups d)"
      using g by (simp add: list_all2_lengthD)
    then have n'': "n < length (Groups d')"
      using s by (simp add: list_all2_lengthD)
    from assms(1,2) list_all2_nthD [OF s n'] list_all2_nthD [OF g n'] list_all2_nthD [OF g' n'']
    show "same_description (converted_groups e d ! n) (converted_groups e' d' ! n)"
      by (rule same_group_converts)
  qed
  moreover have "list_all2 same_description (concat (map (converted_groups e) ds))
      (concat (map (converted_groups e') ds'))"
    using Cons.prems by (intro Cons.IH) simp_all
  ultimately show ?case by (simp add: list_all2_appendI)
qed

lemma described_group_IDs:
  assumes "resolves e groups" and "\<forall>d\<in>set (outcomes e groups). good_outcome e d"
    and "\<forall>(b, grps)\<in>set (issued_requests e groups). \<forall>raw.
           DescribeGroups b grps = Inr raw \<longrightarrow> mset (map GroupId raw) = mset grps"
  shows "mset (map GroupID (concat (map (converted_groups e) (outcomes e groups)))) = mset groups"
proof -
  have "map GroupID (concat (map (converted_groups e) (outcomes e groups))) =
      concat (map (\<lambda>(b, grps). map GroupID (converted_groups e (worker b grps))) (issued_requests e groups))"
    by (simp add: outcomes_def map_concat comp_def case_prod_unfold)
  moreover have "mset (concat (map (\<lambda>(b, grps). map GroupID (converted_groups e (worker b grps)))
      (issued_requests e groups))) = mset (concat (map snd (issued_requests e groups)))"
  proof (rule mset_concat_map_pointwise, rule ballI)
    fix r assume r: "r \<in> set (issued_requests e groups)"
    obtain b grps where bg: "r = (b, grps)" by (cases r)
    with r have g: "good_outcome e (worker b grps)"
      using assms(2) by (force simp add: outcomes_def)
    then obtain raw where raw: "DescribeGroups b grps = Inr raw" "Groups (worker b grps) = raw"
      by (rule outcome_of_request)
    from g obtain c where c: "snd (convertSaramaGroupDescriptions e (Groups (worker b grps))) = Inr c"
      by (auto simp add: good_outcome_def converts_to_def)
    have "mset (map GroupId raw) = mset grps"
      using assms(3) r bg raw(1) by blast
    with converted_GroupIDs [OF c] c raw(2) bg
    show "mset (case r of (b, grps) \<Rightarrow> map GroupID (converted_groups e (worker b grps))) = mset (snd r)"
      by (simp add: converted_groups_def)
  qed
  moreover have "mset (concat (map snd (issued_requests e groups))) = mset groups"
    using assms(1) by (rule issued_requests_batches(3))
  ultimately show ?thesis by simp
qed

subsection \<open>The sample cluster, run\<close>

lemmas demo_defs = demo_env_def demo_broker_def down_broker_def demo_describe_def
  demo_member_def corrupt_member_def nil_member_def in_order_def reversed_def
  group_a_description_def group_b_description_def group_c_description_def
  group_c_member_def group_a_outcome_def group_c_outcome_def group_e_outcome_def
  racing_def cancelled_at_def

lemmas run_defs = DescribeConsumerGroups_def worker_def takes_ctx_case_def
  convertGroupMember_def ErrNoError_def aggregate.simps convertGroupMembers.simps
  convertSaramaGroupDescriptions.simps

lemmas eval_requests = outcomes_def issued_requests_def worker_def

lemma demo_sorting_env: "sorting_env demo_env"
  by (simp add: sorting_env_def sorts_by_def demo_env_def)

lemma demo_sorts_descriptions: "sorts_by GroupID (sort_descriptions demo_env)"
  using demo_sorting_env by (simp add: sorting_env_def)

lemma demo_delivers_all: "delivers_all in_order" "delivers_all reversed"
  by (simp_all add: delivers_all_def in_order_def reversed_def)

lemma demo_in_order_no_ctx: "\<not> takes_ctx_case in_order j"
  by (simp add: takes_ctx_case_def in_order_def)

lemma demo_outcomes_c_a:
  "outcomes demo_env [''group-c'', ''group-a''] = [group_c_outcome, group_a_outcome]"
  by (simp add: eval_requests demo_env_def demo_broker_def group_c_outcome_def group_a_outcome_def)

lemma demo_outcomes_a_c_e:
  "outcomes demo_env [''group-a'', ''group-c'', ''group-e''] = [group_a_outcome, group_e_outcome]"
  by (simp add: eval_requests demo_env_def demo_broker_def group_e_outcome_def group_a_outcome_def)

lemma demo_requests_c_d:
  "issued_requests demo_env [''group-c'', ''group-d''] =
     [(demo_broker 2, [''group-c'']), (down_broker 3, [''group-d''])]"
  by (simp add: issued_requests_def demo_env_def demo_broker_def down_broker_def)

lemma demo_nothing_fatal: "nothing_fatal demo_env in_order [''group-c'', ''group-a'']"
  unfolding nothing_fatal_def demo_outcomes_c_a
  by (simp add: resolves_def demo_defs takes_ctx_case_def decodes_to_nil_def ErrNoError_def)

lemma demo_good_outcome: "good_outcome demo_env group_c_outcome"
  by (simp add: good_outcome_iff demo_defs decodes_to_nil_def ErrNoError_def)

lemma demo_good_outcome_a: "good_outcome demo_env group_a_outcome"
  by (simp add: good_outcome_iff demo_defs decodes_to_nil_def ErrNoError_def)

lemma demo_conversion_log:
  "conversion_log demo_env [group_c_outcome] =
     [Warn_decode_failed ''client-2'' (ClientError ''insufficient data to decode packet'')]"
  by (simp add: conversion_log_def demo_defs run_defs)

lemma demo_run_c: "snd (DescribeConsumerGroups demo_env in_order [''group-c'']) = Inr [group_c_description]"
  by (simp add: demo_defs run_defs)

lemmas pair_defs = pair_env_def pair_broker_def pair_describe_def other_member_def
  demo_member_def member_1_def member_4_def group_p_description_def group_b_description_def
  in_order_def reversed_def

lemma pair_same_cluster: "same_cluster (pair_env False) (pair_env True)"
proof -
  have m: "same_member (''m4'', other_member False) (''m4'', other_member True)"
    by (simp add: same_member_def same_topics_def other_member_def)
  have m1: "same_member (''m1'', demo_member) (''m1'', demo_member)"
    by (simp add: same_member_def same_topics_def demo_member_def)
  have "mset [(''m4'', other_member False), (''m1'', demo_member)] =
        mset [(''m1'', demo_member), (''m4'', other_member False)] \<and>
      list_all2 same_member [(''m4'', other_member False), (''m1'', demo_member)]
        [(''m4'', other_member True), (''m1'', demo_member)]"
    using m m1 by simp
  then have p: "\<exists>members. mset members = mset [(''m1'', demo_member), (''m4'', other_member False)] \<and>
      list_all2 same_member members [(''m4'', other_member True), (''m1'', demo_member)]"
    by blast
  have g: "same_group (pair_describe False g) (pair_describe True g)" for g
    using p by (simp add: same_group_def pair_describe_def)
  have b: "same_broker (pair_broker False i) (pair_broker True i)" for i
    using g by (simp add: same_broker_def pair_broker_def same_answer_def
        list_all2_map1 list_all2_map2 list_all2_same)
  show ?thesis
    using b by (simp add: same_cluster_def pair_env_def)
qed

lemma pair_sorting_env: "sorting_env (pair_env flipped)"
  by (simp add: sorting_env_def sorts_by_def pair_env_def)

lemma pair_run_p:
  "snd (DescribeConsumerGroups (pair_env False) in_order [''group-p'']) =
     Inr [group_p_description [member_1, member_4]]"
  "snd (DescribeConsumerGroups (pair_env True) in_order [''group-p'']) =
     Inr [group_p_description [member_4, member_1]]"
  by (simp_all add: pair_defs run_defs)

section \<open>The claims\<close>

subsection \<open>C1: two calls agree up to the order of the members of a group\<close>

text \<open>
  C1, as stated, fails. The members of a group are emitted in the order in which \<^verbatim>\<open>range\<close>
  visits the raw member map, and nothing sorts them. \<open>pair_env False\<close> and \<open>pair_env True\<close>
  are one cluster seen by two runs; for the same request and the same schedule the
  two calls succeed and return the two members of group-p in different orders.
\<close>

theorem member_order_differs_between_runs:
  "same_cluster (pair_env False) (pair_env True) \<and>
   snd (DescribeConsumerGroups (pair_env False) in_order [''group-p'']) =
     Inr [\<lparr>GroupID = ''group-p'', State = ''Stable'', ProtocolType = ''consumer'',
            Protocol = ''range'', Members = [member_1, member_4]\<rparr>] \<and>
   snd (DescribeConsumerGroups (pair_env True) in_order [''group-p'']) =
     Inr [\<lparr>GroupID = ''group-p'', State = ''Stable'', ProtocolType = ''consumer'',
            Protocol = ''range'', Members = [member_4, member_1]\<rparr>] \<and>
   snd (DescribeConsumerGroups (pair_env True) in_order [''group-p'']) \<noteq>
     snd (DescribeConsumerGroups (pair_env False) in_order [''group-p''])"
proof -
  have "member_4 \<noteq> member_1" by (simp add: member_1_def member_4_def)
  with pair_same_cluster pair_run_p show ?thesis
    by (simp add: group_p_description_def)
qed

text \<open>
  C1, amended. Take pairwise distinct requested group IDs that the brokers answer with one
  record for each ID of a request, and two successful calls on one cluster. Whatever the
  order in which the workers' outcomes arrive, and whatever the order in which \<^verbatim>\<open>range\<close>
  visits the entries of the member maps and of the \<^verbatim>\<open>Topics\<close> maps in each call, both
  outputs list the requested IDs in ascending order (bytewise lexicographic), and the
  descriptions at the same position have the same group ID, state, protocol type and
  protocol and the same members, each with the same fields and assignments; only the
  order of the members inside a group may differ.
\<close>

theorem same_output_up_to_member_order:
  assumes "sorting_env e" and "same_cluster e e'" and "delivers_all s" and "delivers_all s'"
    and "distinct groups"
    and "\<forall>(b, grps)\<in>set (issued_requests e groups). \<forall>raw.
           DescribeGroups b grps = Inr raw \<longrightarrow> mset (map GroupId raw) = mset grps"
    and "snd (DescribeConsumerGroups e s groups) = Inr out"
    and "snd (DescribeConsumerGroups e' s' groups) = Inr out'"
  shows "list_all2 same_description out out' \<and> map GroupID out = sort groups \<and>
     sorted (map GroupID out)"
proof -
  let ?rs = "outcomes e groups" and ?rs' = "outcomes e' groups"
  let ?D = "concat (map (converted_groups e) ?rs)" and ?D' = "concat (map (converted_groups e') ?rs')"
  have sa: "sorts_by TopicName (sort_assignments e)" and sd: "sorts_by GroupID (sort_descriptions e)"
    using assms(1) by (simp_all add: sorting_env_def)
  have srt: "sort_descriptions e' = sort_descriptions e"
    using assms(2) by (simp add: same_cluster_def)
  from assms(7) have res: "resolves e groups"
    unfolding DescribeConsumerGroups_Inr by simp
  from assms(7) obtain cs where cs: "list_all2 (converts_to e) (arrival s ?rs) cs"
    and out: "out = sort_descriptions e (concat cs)"
    unfolding DescribeConsumerGroups_Inr by blast
  from assms(8) obtain cs' where cs': "list_all2 (converts_to e') (arrival s' ?rs') cs'"
    and out': "out' = sort_descriptions e (concat cs')"
    unfolding DescribeConsumerGroups_Inr srt by blast
  have good: "\<forall>d\<in>set ?rs. good_outcome e d"
    using list_all2_in_set1 [OF cs] by (auto simp add: good_outcome_def delivers_set [OF assms(3)])
  have good': "\<forall>d\<in>set ?rs'. good_outcome e' d"
    using list_all2_in_set1 [OF cs'] by (auto simp add: good_outcome_def delivers_set [OF assms(4)])
  have rel: "list_all2 same_description ?D ?D'"
    using sa assms(2) outcomes_same_cluster [OF assms(2)] good good'
    by (rule converted_same_cluster)
  have ids: "map GroupID ?D' = map GroupID ?D"
    using rel by (induction rule: list_all2_induct) (simp_all add: same_description_def)
  have m: "mset (map GroupID ?D) = mset groups"
    using res good assms(6) by (rule described_group_IDs)
  with assms(5) have d: "distinct (map GroupID ?D)"
    by (metis mset_eq_imp_distinct_iff)
  then have d': "distinct (map GroupID ?D')"
    by (simp only: ids)
  have mc: "mset (concat cs) = mset ?D"
    unfolding converts_to_converted [OF cs]
    using assms(3) by (intro mset_concat_map_cong) (simp add: delivers_all_def)
  then have "mset (map GroupID (concat cs)) = mset (map GroupID ?D)"
    by simp
  with d have "distinct (map GroupID (concat cs))"
    by (metis mset_eq_imp_distinct_iff)
  with sd mc have "sort_descriptions e (concat cs) = sort_descriptions e ?D"
    by (rule sorts_by_unique)
  then have o: "out = sort_key GroupID ?D"
    unfolding out using sd d by (simp add: sorts_by_sort_key)
  have mc': "mset (concat cs') = mset ?D'"
    unfolding converts_to_converted [OF cs']
    using assms(4) by (intro mset_concat_map_cong) (simp add: delivers_all_def)
  then have "mset (map GroupID (concat cs')) = mset (map GroupID ?D')"
    by simp
  with d' have "distinct (map GroupID (concat cs'))"
    by (metis mset_eq_imp_distinct_iff)
  with sd mc' have "sort_descriptions e (concat cs') = sort_descriptions e ?D'"
    by (rule sorts_by_unique)
  then have o': "out' = sort_key GroupID ?D'"
    unfolding out' using sd d' by (simp add: sorts_by_sort_key)
  have "list_all2 same_description out out'"
    unfolding o o' using rel by (rule sort_key_related) (simp add: same_description_def)
  moreover have "sorted (map GroupID out)"
    unfolding o by simp
  moreover have "mset (map GroupID out) = mset groups"
    unfolding o using m by simp
  then have "sort groups = map GroupID out"
    using \<open>sorted (map GroupID out)\<close> by (intro properties_for_sort) simp_all
  ultimately show ?thesis by simp
qed

theorem same_output_up_to_member_order_witness:
  "sorting_env (pair_env False) \<and> same_cluster (pair_env False) (pair_env True) \<and>
   delivers_all in_order \<and> delivers_all reversed \<and>
   distinct [''group-p'', ''group-b''] \<and>
   issued_requests (pair_env False) [''group-p'', ''group-b''] =
     [(pair_broker False 1, [''group-p'']), (pair_broker False 2, [''group-b''])] \<and>
   DescribeGroups (pair_broker False 1) [''group-p''] = Inr [pair_describe False ''group-p''] \<and>
   map GroupId [pair_describe False ''group-p''] = [''group-p''] \<and>
   DescribeGroups (pair_broker False 2) [''group-b''] = Inr [pair_describe False ''group-b''] \<and>
   map GroupId [pair_describe False ''group-b''] = [''group-b''] \<and>
   snd (DescribeConsumerGroups (pair_env False) in_order [''group-p'', ''group-b'']) =
     Inr [group_b_description, group_p_description [member_1, member_4]] \<and>
   snd (DescribeConsumerGroups (pair_env True) reversed [''group-p'', ''group-b'']) =
     Inr [group_b_description, group_p_description [member_4, member_1]] \<and>
   list_all2 same_description
     [group_b_description, group_p_description [member_1, member_4]]
     [group_b_description, group_p_description [member_4, member_1]] \<and>
   map GroupID [group_b_description, group_p_description [member_1, member_4]] =
     sort [''group-p'', ''group-b''] \<and>
   sorted (map GroupID [group_b_description, group_p_description [member_1, member_4]])"
proof -
  have 5: "distinct [''group-p'', ''group-b'']" by simp
  have r: "issued_requests (pair_env False) [''group-p'', ''group-b''] =
     [(pair_broker False 1, [''group-p'']), (pair_broker False 2, [''group-b''])]"
    by (simp add: issued_requests_def pair_env_def pair_broker_def)
  have a: "DescribeGroups (pair_broker False 1) [''group-p''] = Inr [pair_describe False ''group-p'']"
    "map GroupId [pair_describe False ''group-p''] = [''group-p'']"
    "DescribeGroups (pair_broker False 2) [''group-b''] = Inr [pair_describe False ''group-b'']"
    "map GroupId [pair_describe False ''group-b''] = [''group-b'']"
    by (simp_all add: pair_broker_def pair_describe_def)
  have 6: "\<forall>(b, grps)\<in>set (issued_requests (pair_env False) [''group-p'', ''group-b'']). \<forall>raw.
      DescribeGroups b grps = Inr raw \<longrightarrow> mset (map GroupId raw) = mset grps"
    unfolding r using a by auto
  have 7: "snd (DescribeConsumerGroups (pair_env False) in_order [''group-p'', ''group-b'']) =
     Inr [group_b_description, group_p_description [member_1, member_4]]"
    by (simp add: pair_defs run_defs)
  have 8: "snd (DescribeConsumerGroups (pair_env True) reversed [''group-p'', ''group-b'']) =
     Inr [group_b_description, group_p_description [member_4, member_1]]"
    by (simp add: pair_defs run_defs)
  note c = same_output_up_to_member_order
    [OF pair_sorting_env pair_same_cluster demo_delivers_all(1) demo_delivers_all(2) 5 6 7 8]
  from c pair_sorting_env [of False] pair_same_cluster demo_delivers_all 5 r a 7 8
  show ?thesis by blast
qed

subsection \<open>C2: the example scenario\<close>

text \<open>
  C2. The request is \<open>[''group-a'', ''group-b'']\<close>; both coordinators have broker ID 1;
  the handle kept for that ID (the one resolved last) answers the batch with group-a
  (Stable, protocol type consumer, one member m1 whose assignment decodes to topic-x with
  partitions 2, 0, 1) and group-b (Empty, protocol type consumer, no members), in either
  order; the context is never cancelled. Then the call logs nothing and returns group-a,
  with member m1 assigned topic-x with partitions 0, 1, 2, followed by group-b with no
  members. The fields the scenario leaves open (protocol, client ID, client host) are
  copied from the raw records.
\<close>

theorem example_scenario:
  assumes "sorting_env e" and "delivers_all s" and "\<forall>i. \<not> ctx_done s i"
    and "Coordinator e ''group-a'' = Inr b" and "broker_ID b = 1"
    and "Coordinator e ''group-b'' = Inr b'" and "broker_ID b' = 1"
    and "DescribeGroups b' [''group-a'', ''group-b''] = Inr raw"
    and "raw = [group_a, group_b] \<or> raw = [group_b, group_a]"
    and "group_a = \<lparr>raw_Err = ErrNoError, GroupId = ''group-a'', raw_State = ''Stable'',
           raw_ProtocolType = ''consumer'', raw_Protocol = p, raw_Members = [(''m1'', m1)]\<rparr>"
    and "GetMemberAssignment m1 = (Some [(''topic-x'', [2, 0, 1])], None)"
    and "group_b = \<lparr>raw_Err = ErrNoError, GroupId = ''group-b'', raw_State = ''Empty'',
           raw_ProtocolType = ''consumer'', raw_Protocol = p', raw_Members = []\<rparr>"
  shows "DescribeConsumerGroups e s [''group-a'', ''group-b''] =
     ([], Inr [\<lparr>GroupID = ''group-a'', State = ''Stable'', ProtocolType = ''consumer'',
                 Protocol = p,
                 Members = [\<lparr>ID = ''m1'', ClientID = ClientId m1, ClientHost = raw_ClientHost m1,
                              Assignments = [\<lparr>TopicName = ''topic-x'',
                                               PartitionIDs = [0, 1, 2]\<rparr>]\<rparr>]\<rparr>,
                \<lparr>GroupID = ''group-b'', State = ''Empty'', ProtocolType = ''consumer'',
                 Protocol = p', Members = []\<rparr>])"
proof -
  let ?a = "\<lparr>GroupID = ''group-a'', State = ''Stable'', ProtocolType = ''consumer'',
                 Protocol = p,
                 Members = [\<lparr>ID = ''m1'', ClientID = ClientId m1, ClientHost = raw_ClientHost m1,
                              Assignments = [\<lparr>TopicName = ''topic-x'',
                                               PartitionIDs = [0, 1, 2]\<rparr>]\<rparr>]\<rparr>"
  let ?b = "\<lparr>GroupID = ''group-b'', State = ''Empty'', ProtocolType = ''consumer'',
                 Protocol = p', Members = []\<rparr>"
  have sp: "sorts_by sint (sort_partitionIDs e)" and sa: "sorts_by TopicName (sort_assignments e)"
    and sd: "sorts_by GroupID (sort_descriptions e)"
    using assms(1) by (simp_all add: sorting_env_def)
  have parts: "sort_partitionIDs e [2, 0, 1] = [0, 1, 2]"
    by (simp add: sorts_by_sort_key [OF sp])
  have ma: "convertGroupMembers e [(''m1'', m1)] ''consumer'' =
      ([], Inr [\<lparr>ID = ''m1'', ClientID = ClientId m1, ClientHost = raw_ClientHost m1,
                  Assignments = [\<lparr>TopicName = ''topic-x'', PartitionIDs = [0, 1, 2]\<rparr>]\<rparr>])"
    using assms(11) by (simp add: convertGroupMembers.simps convertGroupMember_def parts
        sorts_by_single [OF sa])
  have c1: "convertSaramaGroupDescriptions e [group_a, group_b] = ([], Inr [?a, ?b])"
    by (simp add: convertSaramaGroupDescriptions.simps assms(10,12) ma)
  have c2: "convertSaramaGroupDescriptions e [group_b, group_a] = ([], Inr [?b, ?a])"
    by (simp add: convertSaramaGroupDescriptions.simps assms(10,12) ma)
  have s1: "sort_descriptions e [?a, ?b] = [?a, ?b]"
    by (simp add: sorts_by_sort_key [OF sd])
  have s2: "sort_descriptions e [?b, ?a] = [?a, ?b]"
    by (simp add: sorts_by_sort_key [OF sd])
  have ctx: "\<And>i. \<not> takes_ctx_case s i"
    using assms(3) by (simp add: takes_ctx_case_def)
  have "DescribeConsumerGroups e s [''group-a'', ''group-b''] =
      (case aggregate e s 0 [\<lparr>Err = None, Groups = raw, BrokerID = 1\<rparr>] [] of
         (logged, Inl x) \<Rightarrow> (logged, Inl x)
       | (logged, Inr descriptions) \<Rightarrow> (logged, Inr (sort_descriptions e descriptions)))"
    by (simp add: DescribeConsumerGroups_def assms(4-8) worker_def delivers_single [OF assms(2)])
  also have "\<dots> = ([], Inr [?a, ?b])"
    using assms(9) by (auto simp add: aggregate.simps ctx c1 c2 s1 s2)
  finally show ?thesis .
qed

theorem example_scenario_witness:
  "sorting_env demo_env \<and> delivers_all in_order \<and> (\<forall>i. \<not> ctx_done in_order i) \<and>
   Coordinator demo_env ''group-a'' = Inr (demo_broker 1) \<and> broker_ID (demo_broker 1) = 1 \<and>
   Coordinator demo_env ''group-b'' = Inr (demo_broker 1) \<and>
   DescribeGroups (demo_broker 1) [''group-a'', ''group-b''] =
     Inr [demo_describe ''group-a'', demo_describe ''group-b''] \<and>
   demo_describe ''group-a'' =
     \<lparr>raw_Err = ErrNoError, GroupId = ''group-a'', raw_State = ''Stable'',
      raw_ProtocolType = ''consumer'', raw_Protocol = ''range'',
      raw_Members = [(''m1'', demo_member)]\<rparr> \<and>
   GetMemberAssignment demo_member = (Some [(''topic-x'', [2, 0, 1])], None) \<and>
   demo_describe ''group-b'' =
     \<lparr>raw_Err = ErrNoError, GroupId = ''group-b'', raw_State = ''Empty'',
      raw_ProtocolType = ''consumer'', raw_Protocol = [], raw_Members = []\<rparr> \<and>
   DescribeConsumerGroups demo_env in_order [''group-a'', ''group-b''] =
     ([], Inr [group_a_description, group_b_description])"
proof -
  have 3: "\<forall>i. \<not> ctx_done in_order i" by (simp add: in_order_def)
  have 4: "Coordinator demo_env ''group-a'' = Inr (demo_broker 1)" by (simp add: demo_env_def)
  have 5: "broker_ID (demo_broker 1) = 1" by (simp add: demo_broker_def)
  have 6: "Coordinator demo_env ''group-b'' = Inr (demo_broker 1)" by (simp add: demo_env_def)
  have 8: "DescribeGroups (demo_broker 1) [''group-a'', ''group-b''] =
      Inr [demo_describe ''group-a'', demo_describe ''group-b'']"
    by (simp add: demo_broker_def)
  have 9: "[demo_describe ''group-a'', demo_describe ''group-b''] =
        [demo_describe ''group-a'', demo_describe ''group-b''] \<or>
      [demo_describe ''group-a'', demo_describe ''group-b''] =
        [demo_describe ''group-b'', demo_describe ''group-a'']"
    by simp
  have 10: "demo_describe ''group-a'' =
      \<lparr>raw_Err = ErrNoError, GroupId = ''group-a'', raw_State = ''Stable'',
       raw_ProtocolType = ''consumer'', raw_Protocol = ''range'',
       raw_Members = [(''m1'', demo_member)]\<rparr>"
    by (simp add: demo_describe_def)
  have 11: "GetMemberAssignment demo_member = (Some [(''topic-x'', [2, 0, 1])], None)"
    by (simp add: demo_member_def)
  have 12: "demo_describe ''group-b'' =
      \<lparr>raw_Err = ErrNoError, GroupId = ''group-b'', raw_State = ''Empty'',
       raw_ProtocolType = ''consumer'', raw_Protocol = [], raw_Members = []\<rparr>"
    by (simp add: demo_describe_def)
  from example_scenario [OF demo_sorting_env demo_delivers_all(1) 3 4 5 6 5 8 9 10 11 12]
  have "DescribeConsumerGroups demo_env in_order [''group-a'', ''group-b''] =
      ([], Inr [group_a_description, group_b_description])"
    by (simp add: group_a_description_def group_b_description_def demo_member_def)
  with demo_sorting_env demo_delivers_all(1) 3 4 5 6 8 10 11 12 show ?thesis
    by simp
qed

subsection \<open>C3: a decode failure is not fatal, and the topics returned with it are kept\<close>

text \<open>
  C3, as stated, fails. Broker 2 of the sample cluster describes group-c, whose member m2
  has an assignment for which \<^verbatim>\<open>GetMemberAssignment\<close> reports an error and hands back a
  value with two topics. The call succeeds and logs the warning, but m2 is emitted with
  both topics, not with an empty assignment list.
\<close>

theorem decode_failure_assignments_not_empty:
  "raw_ProtocolType (demo_describe ''group-c'') = ''consumer'' \<and>
   raw_Members (demo_describe ''group-c'') = [(''m2'', corrupt_member)] \<and>
   GetMemberAssignment corrupt_member =
     (Some [(''topic-z'', [1]), (''topic-y'', [3, 1])],
      Some (ClientError ''insufficient data to decode packet'')) \<and>
   DescribeGroups (demo_broker 2) [''group-c''] = Inr [demo_describe ''group-c''] \<and>
   DescribeConsumerGroups demo_env in_order [''group-c''] =
     ([Warn_decode_failed ''client-2'' (ClientError ''insufficient data to decode packet'')],
      Inr [\<lparr>GroupID = ''group-c'', State = ''Stable'', ProtocolType = ''consumer'',
             Protocol = ''range'',
             Members = [\<lparr>ID = ''m2'', ClientID = ''client-2'', ClientHost = ''/10.0.0.2'',
                          Assignments = [\<lparr>TopicName = ''topic-y'', PartitionIDs = [1, 3]\<rparr>,
                                         \<lparr>TopicName = ''topic-z'', PartitionIDs = [1]\<rparr>]\<rparr>]\<rparr>])"
  by (simp add: demo_defs run_defs)

text \<open>
  C3, amended. Let a member of a group with protocol type consumer have an assignment for
  which \<^verbatim>\<open>GetMemberAssignment\<close> reports an error and returns a value that is not nil. If
  nothing fatal happens (every coordinator resolves, no \<^verbatim>\<open>select\<close> takes the cancellation
  case, no broker request fails, no group carries an error code, no decoder result is
  nil), the call succeeds, the warning for that member is in the log, and the member is
  in the output of its group with the sorted entries of the topic map that came with the
  error: an empty list exactly when that map is empty.
\<close>

theorem decode_failure_keeps_returned_topics:
  assumes "sorting_env e" and "delivers_all s"
    and "nothing_fatal e s groups"
    and "d \<in> set (outcomes e groups)" and "raw \<in> set (Groups d)"
    and "raw_ProtocolType raw = ''consumer''" and "(id', m) \<in> set (raw_Members raw)"
    and "GetMemberAssignment m = (Some topics, Some x)"
  shows "\<exists>out assignments.
     snd (DescribeConsumerGroups e s groups) = Inr out \<and>
     Warn_decode_failed (ClientId m) x \<in> set (fst (DescribeConsumerGroups e s groups)) \<and>
     assignments = sort_assignments e
       (map (\<lambda>(topic, partitionIDs).
               \<lparr>TopicName = topic, PartitionIDs = sort_partitionIDs e partitionIDs\<rparr>)
            topics) \<and>
     (\<exists>g\<in>set out. GroupID g = GroupId raw \<and>
        \<lparr>ID = id', ClientID = ClientId m, ClientHost = raw_ClientHost m,
         Assignments = assignments\<rparr> \<in> set (Members g)) \<and>
     (assignments = [] \<longleftrightarrow> topics = [])"
proof -
  let ?assignments = "sort_assignments e
       (map (\<lambda>(topic, partitionIDs).
               \<lparr>TopicName = topic, PartitionIDs = sort_partitionIDs e partitionIDs\<rparr>)
            topics)"
  let ?member = "\<lparr>ID = id', ClientID = ClientId m, ClientHost = raw_ClientHost m,
         Assignments = ?assignments\<rparr>"
  have sd: "sorts_by GroupID (sort_descriptions e)" and sa: "sorts_by TopicName (sort_assignments e)"
    using assms(1) by (simp_all add: sorting_env_def)
  from assms(3) obtain out where out: "snd (DescribeConsumerGroups e s groups) = Inr out"
    using DescribeConsumerGroups_succeeds [OF assms(2)] by blast
  have cm: "convertGroupMember e ''consumer'' (id', m) =
      ([Warn_decode_failed (ClientId m) x], Inr ?member)"
    using assms(8) by (simp add: convertGroupMember_decoded)
  have good: "good_outcome e d"
    using assms(3,4) by (simp add: nothing_fatal_def good_outcome_iff)
  have "raw_Err raw = ErrNoError \<and>
      (\<forall>entry\<in>set (raw_Members raw). \<not> decodes_to_nil (raw_ProtocolType raw) entry)"
    using assms(3,4,5) by (simp add: nothing_fatal_def)
  then obtain g where g: "group_converts e raw g"
    using group_converts_iff by blast
  from list_all2_in_set1 [OF group_converts_members [OF g] assms(7)] cm assms(6)
  have 1: "?member \<in> set (Members g)" by simp
  have 2: "g \<in> set out"
    unfolding DescribeConsumerGroups_output [OF assms(2) sd out] using assms(4,5) g by blast
  have 3: "GroupID g = GroupId raw"
    using g by (rule group_converts_GroupID)
  have 4: "Warn_decode_failed (ClientId m) x \<in> set (fst (DescribeConsumerGroups e s groups))"
    unfolding DescribeConsumerGroups_log [OF out]
  proof (rule conversion_log_member [OF good _ assms(5,7)])
    show "d \<in> set (arrival s (outcomes e groups))"
      using assms(4) by (simp add: delivers_set [OF assms(2)])
    show "Warn_decode_failed (ClientId m) x \<in> set (fst (convertGroupMember e (raw_ProtocolType raw) (id', m)))"
      using cm assms(6) by simp
  qed
  have "length ?assignments = length topics"
    using sorts_by_length [OF sa] by simp
  then have 5: "?assignments = [] \<longleftrightarrow> topics = []"
    by (metis length_0_conv)
  from 1 2 3 have 6: "\<exists>g\<in>set out. GroupID g = GroupId raw \<and> ?member \<in> set (Members g)"
    by (intro bexI [of _ g]) simp_all
  show ?thesis
    by (intro exI [of _ out] exI [of _ ?assignments] conjI out 4 refl 6 5)
qed

theorem decode_failure_keeps_returned_topics_witness:
  "sorting_env demo_env \<and> delivers_all in_order \<and>
   nothing_fatal demo_env in_order [''group-c'', ''group-a''] \<and>
   group_c_outcome \<in> set (outcomes demo_env [''group-c'', ''group-a'']) \<and>
   demo_describe ''group-c'' \<in> set (Groups group_c_outcome) \<and>
   raw_ProtocolType (demo_describe ''group-c'') = ''consumer'' \<and>
   (''m2'', corrupt_member) \<in> set (raw_Members (demo_describe ''group-c'')) \<and>
   GetMemberAssignment corrupt_member =
     (Some [(''topic-z'', [1]), (''topic-y'', [3, 1])],
      Some (ClientError ''insufficient data to decode packet'')) \<and>
   (\<exists>out. snd (DescribeConsumerGroups demo_env in_order [''group-c'', ''group-a'']) = Inr out \<and>
      Warn_decode_failed ''client-2'' (ClientError ''insufficient data to decode packet'')
        \<in> set (fst (DescribeConsumerGroups demo_env in_order [''group-c'', ''group-a''])) \<and>
      (\<exists>g\<in>set out. GroupID g = ''group-c'' \<and> group_c_member \<in> set (Members g)))"
proof -
  have 4: "group_c_outcome \<in> set (outcomes demo_env [''group-c'', ''group-a''])"
    by (simp add: demo_outcomes_c_a)
  have 5: "demo_describe ''group-c'' \<in> set (Groups group_c_outcome)"
    by (simp add: group_c_outcome_def)
  have 6: "raw_ProtocolType (demo_describe ''group-c'') = ''consumer''"
    by (simp add: demo_describe_def)
  have 7: "(''m2'', corrupt_member) \<in> set (raw_Members (demo_describe ''group-c''))"
    by (simp add: demo_describe_def)
  have 8: "GetMemberAssignment corrupt_member =
     (Some [(''topic-z'', [1]), (''topic-y'', [3, 1])],
      Some (ClientError ''insufficient data to decode packet''))"
    by (simp add: corrupt_member_def)
  have m: "\<lparr>ID = ''m2'', ClientID = ClientId corrupt_member,
       ClientHost = raw_ClientHost corrupt_member,
       Assignments = sort_assignments demo_env
         (map (\<lambda>(topic, partitionIDs).
                 \<lparr>TopicName = topic, PartitionIDs = sort_partitionIDs demo_env partitionIDs\<rparr>)
              [(''topic-z'', [1]), (''topic-y'', [3, 1])])\<rparr> = group_c_member"
    by (simp add: demo_env_def corrupt_member_def group_c_member_def)
  have c: "ClientId corrupt_member = ''client-2''" "GroupId (demo_describe ''group-c'') = ''group-c''"
    by (simp_all add: corrupt_member_def demo_describe_def)
  from decode_failure_keeps_returned_topics
    [OF demo_sorting_env demo_delivers_all(1) demo_nothing_fatal 4 5 6 7 8]
  obtain out g where o: "snd (DescribeConsumerGroups demo_env in_order [''group-c'', ''group-a'']) = Inr out"
    and w: "Warn_decode_failed (ClientId corrupt_member) (ClientError ''insufficient data to decode packet'')
        \<in> set (fst (DescribeConsumerGroups demo_env in_order [''group-c'', ''group-a'']))"
    and g: "g \<in> set out" "GroupID g = GroupId (demo_describe ''group-c'')"
      "\<lparr>ID = ''m2'', ClientID = ClientId corrupt_member,
       ClientHost = raw_ClientHost corrupt_member,
       Assignments = sort_assignments demo_env
         (map (\<lambda>(topic, partitionIDs).
                 \<lparr>TopicName = topic, PartitionIDs = sort_partitionIDs demo_env partitionIDs\<rparr>)
              [(''topic-z'', [1]), (''topic-y'', [3, 1])])\<rparr> \<in> set (Members g)"
    by blast
  from g have "\<exists>g\<in>set out. GroupID g = ''group-c'' \<and> group_c_member \<in> set (Members g)"
    unfolding m c(2) by blast
  with o w have "\<exists>out. snd (DescribeConsumerGroups demo_env in_order [''group-c'', ''group-a'']) = Inr out \<and>
      Warn_decode_failed ''client-2'' (ClientError ''insufficient data to decode packet'')
        \<in> set (fst (DescribeConsumerGroups demo_env in_order [''group-c'', ''group-a''])) \<and>
      (\<exists>g\<in>set out. GroupID g = ''group-c'' \<and> group_c_member \<in> set (Members g))"
    unfolding c by blast
  with demo_sorting_env demo_delivers_all(1) demo_nothing_fatal 4 5 6 7 8
  show ?thesis by (intro conjI)
qed

subsection \<open>C4: one description per raw record, not per unique requested ID\<close>

text \<open>
  C4, as stated, fails. Nothing in the function removes duplicates: a group ID requested
  twice is sent twice to its coordinator, and a broker that answers each entry of the
  request yields two descriptions of the same group.
\<close>

theorem duplicate_request_described_twice:
  "DescribeGroups (demo_broker 1) [''group-b'', ''group-b''] =
     Inr [demo_describe ''group-b'', demo_describe ''group-b''] \<and>
   DescribeConsumerGroups demo_env in_order [''group-b'', ''group-b''] =
     ([], Inr [\<lparr>GroupID = ''group-b'', State = ''Empty'', ProtocolType = ''consumer'',
                 Protocol = [], Members = []\<rparr>,
               \<lparr>GroupID = ''group-b'', State = ''Empty'', ProtocolType = ''consumer'',
                 Protocol = [], Members = []\<rparr>])"
  by (simp add: demo_defs run_defs)

text \<open>
  C4, amended. If every broker answers a request with one record for each group ID of the
  request, repeated IDs included, a successful call returns the requested IDs in
  ascending order, each as often as it was requested. So for pairwise distinct requested
  IDs no group ID occurs twice in the output, and in every case the IDs of the output are
  exactly the requested ones.
\<close>

theorem one_description_per_requested_ID:
  assumes "sorts_by GroupID (sort_descriptions e)" and "delivers_all s"
    and "snd (DescribeConsumerGroups e s groups) = Inr out"
    and "\<forall>(b, grps)\<in>set (issued_requests e groups). \<forall>raw.
           DescribeGroups b grps = Inr raw \<longrightarrow> mset (map GroupId raw) = mset grps"
  shows "map GroupID out = sort groups \<and>
     (distinct groups \<longrightarrow> distinct (map GroupID out)) \<and>
     set (map GroupID out) = set groups"
proof -
  let ?rs = "outcomes e groups"
  let ?f = "\<lambda>d. case snd (convertSaramaGroupDescriptions e (Groups d)) of Inl x \<Rightarrow> [] | Inr c \<Rightarrow> c"
  from assms(3) have res: "resolves e groups"
    and "\<exists>cs. list_all2 (converts_to e) (arrival s ?rs) cs \<and> out = sort_descriptions e (concat cs)"
    unfolding DescribeConsumerGroups_Inr by simp_all
  then obtain cs where cs: "list_all2 (converts_to e) (arrival s ?rs) cs"
    and out: "out = sort_descriptions e (concat cs)"
    by blast
  have good: "\<forall>d\<in>set ?rs. good_outcome e d"
    using list_all2_in_set1 [OF cs] by (auto simp add: good_outcome_def delivers_set [OF assms(2)])
  have "cs = map ?f (arrival s ?rs)"
    using cs by (induction rule: list_all2_induct) (simp_all add: converts_to_def)
  then have "map GroupID (concat cs) = concat (map (\<lambda>d. map GroupID (?f d)) (arrival s ?rs))"
    by (simp add: map_concat comp_def)
  moreover have "mset (map GroupID out) = mset (map GroupID (concat cs))"
    unfolding out using assms(1) by (simp add: sorts_by_mset)
  ultimately have "mset (map GroupID out) =
      mset (concat (map (\<lambda>d. map GroupID (?f d)) (arrival s ?rs)))"
    by simp
  also have "\<dots> = mset (concat (map (\<lambda>d. map GroupID (?f d)) ?rs))"
    using assms(2) by (intro mset_concat_map_cong) (simp add: delivers_all_def)
  also have "\<dots> = mset (concat (map (\<lambda>(b, grps). map GroupID (?f (worker b grps))) (issued_requests e groups)))"
    by (simp add: outcomes_def comp_def case_prod_unfold)
  also have "\<dots> = mset (concat (map snd (issued_requests e groups)))"
  proof (rule mset_concat_map_pointwise, rule ballI)
    fix r assume r: "r \<in> set (issued_requests e groups)"
    obtain b grps where bg: "r = (b, grps)" by (cases r)
    with r have g: "good_outcome e (worker b grps)"
      using good by (force simp add: outcomes_def)
    then obtain raw where raw: "DescribeGroups b grps = Inr raw" "Groups (worker b grps) = raw"
      by (rule outcome_of_request)
    from g obtain c where c: "snd (convertSaramaGroupDescriptions e (Groups (worker b grps))) = Inr c"
      by (auto simp add: good_outcome_def converts_to_def)
    have "mset (map GroupId raw) = mset grps"
      using assms(4) r bg raw(1) by blast
    with converted_GroupIDs [OF c] c raw(2) bg
    show "mset (case r of (b, grps) \<Rightarrow> map GroupID (?f (worker b grps))) = mset (snd r)"
      by simp
  qed
  also have "\<dots> = mset groups"
    using res by (rule issued_requests_batches(3))
  finally have m: "mset (map GroupID out) = mset groups" .
  have "sorted (map GroupID out)"
    unfolding out using assms(1) by (rule sorts_by_sorted)
  with m have "sort groups = map GroupID out"
    by (intro properties_for_sort) simp_all
  moreover have "distinct groups \<longrightarrow> distinct (map GroupID out)"
    using m by (metis mset_eq_imp_distinct_iff)
  moreover have "set (map GroupID out) = set groups"
    using m by (rule mset_eq_setD)
  ultimately show ?thesis by simp
qed

theorem one_description_per_requested_ID_witness:
  "sorts_by GroupID (sort_descriptions demo_env) \<and> delivers_all in_order \<and>
   snd (DescribeConsumerGroups demo_env in_order [''group-c'', ''group-a'']) =
     Inr [group_a_description, group_c_description] \<and>
   issued_requests demo_env [''group-c'', ''group-a''] =
     [(demo_broker 2, [''group-c'']), (demo_broker 1, [''group-a''])] \<and>
   DescribeGroups (demo_broker 2) [''group-c''] = Inr [demo_describe ''group-c''] \<and>
   map GroupId [demo_describe ''group-c''] = [''group-c''] \<and>
   DescribeGroups (demo_broker 1) [''group-a''] = Inr [demo_describe ''group-a''] \<and>
   map GroupId [demo_describe ''group-a''] = [''group-a''] \<and>
   distinct [''group-c'', ''group-a''] \<and>
   map GroupID [group_a_description, group_c_description] = sort [''group-c'', ''group-a''] \<and>
   distinct (map GroupID [group_a_description, group_c_description]) \<and>
   set (map GroupID [group_a_description, group_c_description]) = set [''group-c'', ''group-a'']"
proof -
  have 3: "snd (DescribeConsumerGroups demo_env in_order [''group-c'', ''group-a'']) =
      Inr [group_a_description, group_c_description]"
    by (simp add: demo_defs run_defs)
  have r: "issued_requests demo_env [''group-c'', ''group-a''] =
     [(demo_broker 2, [''group-c'']), (demo_broker 1, [''group-a''])]"
    by (simp add: issued_requests_def demo_env_def demo_broker_def)
  have c: "DescribeGroups (demo_broker 2) [''group-c''] = Inr [demo_describe ''group-c'']"
    "map GroupId [demo_describe ''group-c''] = [''group-c'']"
    by (simp_all add: demo_broker_def demo_describe_def)
  have a: "DescribeGroups (demo_broker 1) [''group-a''] = Inr [demo_describe ''group-a'']"
    "map GroupId [demo_describe ''group-a''] = [''group-a'']"
    by (simp_all add: demo_broker_def demo_describe_def)
  have 4: "\<forall>(b, grps)\<in>set (issued_requests demo_env [''group-c'', ''group-a'']). \<forall>raw.
      DescribeGroups b grps = Inr raw \<longrightarrow> mset (map GroupId raw) = mset grps"
    unfolding r using c a by auto
  have 5: "distinct [''group-c'', ''group-a'']" by simp
  from one_description_per_requested_ID [OF demo_sorts_descriptions demo_delivers_all(1) 3 4] 5
  have "map GroupID [group_a_description, group_c_description] = sort [''group-c'', ''group-a''] \<and>
   distinct (map GroupID [group_a_description, group_c_description]) \<and>
   set (map GroupID [group_a_description, group_c_description]) = set [''group-c'', ''group-a'']"
    by blast
  with demo_sorts_descriptions demo_delivers_all(1) 3 r c a 5 show ?thesis by blast
qed

subsection \<open>C5: cancellation is an error once the loop takes the cancellation case\<close>

text \<open>
  C5, as stated, fails. A \<^verbatim>\<open>select\<close> with several ready cases takes any one of them. With
  the schedule \<open>racing\<close> the signal has fired before the first \<^verbatim>\<open>select\<close>, the outcome of
  the only worker and then the closed channel are ready as well, both times the channel
  case is taken, and the call returns the description of group-b without an error.
\<close>

theorem cancellation_fired_call_succeeds:
  "ctx_done racing 0 \<and> ctx_done racing 1 \<and>
   DescribeConsumerGroups demo_env racing [''group-b''] =
     ([], Inr [\<lparr>GroupID = ''group-b'', State = ''Empty'', ProtocolType = ''consumer'',
                 Protocol = [], Members = []\<rparr>])"
  by (simp add: demo_defs run_defs)

text \<open>
  C5, amended. If \<^verbatim>\<open>select\<close> number \<open>k\<close> of the aggregation loop, not later than the one
  that would find the channel closed, is the first to take the cancellation case (the
  signal has fired and the choice does not fall on the channel), and the \<open>k\<close> outcomes
  received before it were all good, the call logs the error and returns the
  cancellation error without output, whatever \<open>k\<close> is, that is, however many outcomes
  were already aggregated.
\<close>

theorem cancellation_case_taken:
  assumes "resolves e groups" and "delivers_all s"
    and "k \<le> length (outcomes e groups)"
    and "\<forall>j<k. \<not> takes_ctx_case s j" and "takes_ctx_case s k"
    and "\<forall>d\<in>set (take k (arrival s (outcomes e groups))). good_outcome e d"
  shows "DescribeConsumerGroups e s groups =
     (conversion_log e (take k (arrival s (outcomes e groups))) @ [Error_context_cancelled],
      Inl ContextCancelled)"
proof -
  let ?ar = "arrival s (outcomes e groups)"
  from good_prefix_converts [OF assms(6)] obtain cs where
    cs: "list_all2 (converts_to e) (take k ?ar) cs" ..
  have len: "min (length ?ar) k = k"
    using assms(3) by (simp add: delivers_length [OF assms(2)])
  have "aggregate e s 0 (take k ?ar @ drop k ?ar) [] =
      (conversion_log e (take k ?ar) @ [Error_context_cancelled], Inl ContextCancelled)"
    using aggregate_good_prefix [OF cs, of s 0 "drop k ?ar" "[]"] assms(4,5)
    by (simp add: len aggregate_ctx)
  then show ?thesis
    by (simp add: DescribeConsumerGroups_resolved [OF assms(1)])
qed

theorem cancellation_case_taken_witness:
  "resolves demo_env [''group-c'', ''group-a''] \<and> delivers_all (cancelled_at 1) \<and>
   1 \<le> length (outcomes demo_env [''group-c'', ''group-a'']) \<and>
   \<not> takes_ctx_case (cancelled_at 1) 0 \<and> takes_ctx_case (cancelled_at 1) 1 \<and>
   take 1 (arrival (cancelled_at 1) (outcomes demo_env [''group-c'', ''group-a''])) =
     [group_c_outcome] \<and>
   good_outcome demo_env group_c_outcome \<and>
   DescribeConsumerGroups demo_env (cancelled_at 1) [''group-c'', ''group-a''] =
     ([Warn_decode_failed ''client-2'' (ClientError ''insufficient data to decode packet''),
       Error_context_cancelled],
      Inl ContextCancelled)"
proof -
  have 1: "resolves demo_env [''group-c'', ''group-a'']"
    by (simp add: resolves_def demo_env_def)
  have 2: "delivers_all (cancelled_at 1)"
    by (simp add: delivers_all_def cancelled_at_def)
  have 3: "1 \<le> length (outcomes demo_env [''group-c'', ''group-a''])"
    by (simp add: demo_outcomes_c_a)
  have 0: "\<not> takes_ctx_case (cancelled_at 1) 0"
    by (simp add: takes_ctx_case_def cancelled_at_def)
  then have 4: "\<forall>j<1. \<not> takes_ctx_case (cancelled_at 1) j"
    by simp
  have 5: "takes_ctx_case (cancelled_at 1) 1"
    by (simp add: takes_ctx_case_def cancelled_at_def)
  have t: "take 1 (arrival (cancelled_at 1) (outcomes demo_env [''group-c'', ''group-a''])) =
      [group_c_outcome]"
    by (simp add: demo_outcomes_c_a cancelled_at_def)
  have 6: "\<forall>d\<in>set (take 1 (arrival (cancelled_at 1) (outcomes demo_env [''group-c'', ''group-a'']))).
      good_outcome demo_env d"
    unfolding t by (simp add: demo_good_outcome)
  from cancellation_case_taken [OF 1 2 3 4 5 6]
  have "DescribeConsumerGroups demo_env (cancelled_at 1) [''group-c'', ''group-a''] =
     ([Warn_decode_failed ''client-2'' (ClientError ''insufficient data to decode packet''),
       Error_context_cancelled],
      Inl ContextCancelled)"
    unfolding t by (simp add: demo_conversion_log)
  with 1 2 3 0 5 t demo_good_outcome show ?thesis by (intro conjI)
qed

subsection \<open>C6: an error code on one group fails the whole call\<close>

text \<open>
  C6. Let a broker answer its request (no transport error) with a list in which some
  raw group record carries an error code. Then the call returns an error and no
  descriptions, under every schedule. The error is that code when the record is the first
  failure the call meets: the outcomes received earlier were good, no \<^verbatim>\<open>select\<close> up to
  then took the cancellation case, and the records before it in its batch convert.
\<close>

theorem group_error_fails_call:
  assumes "delivers_all s" and "d \<in> set (outcomes e groups)" and "Err d = None"
    and "raw \<in> set (Groups d)" and "raw_Err raw \<noteq> ErrNoError"
  shows "(\<exists>x. snd (DescribeConsumerGroups e s groups) = Inl x) \<and>
     (\<forall>pre post before after.
        arrival s (outcomes e groups) = pre @ d # post \<and>
        (\<forall>d'\<in>set pre. good_outcome e d') \<and> (\<forall>j\<le>length pre. \<not> takes_ctx_case s j) \<and>
        Groups d = before @ raw # after \<and> (\<forall>r\<in>set before. \<exists>g. group_converts e r g) \<longrightarrow>
        snd (DescribeConsumerGroups e s groups) = Inl (GroupError (raw_Err raw)))"
proof (intro conjI allI impI)
  have "\<not> good_outcome e d"
    using assms(4,5) by (auto simp add: good_outcome_iff)
  with assms(1,2) show "\<exists>x. snd (DescribeConsumerGroups e s groups) = Inl x"
    by (rule DescribeConsumerGroups_fails)
next
  fix pre post before after
  assume h: "arrival s (outcomes e groups) = pre @ d # post \<and>
        (\<forall>d'\<in>set pre. good_outcome e d') \<and> (\<forall>j\<le>length pre. \<not> takes_ctx_case s j) \<and>
        Groups d = before @ raw # after \<and> (\<forall>r\<in>set before. \<exists>g. group_converts e r g)"
  then obtain cs where "list_all2 (group_converts e) before cs"
    using list_all2_ex [of "group_converts e" before] by blast
  from convertSaramaGroupDescriptions_first_error [OF this assms(5), of after] h
  have "snd (convertSaramaGroupDescriptions e (Groups d)) = Inl (GroupError (raw_Err raw))"
    by simp
  moreover have "outcomes e groups \<noteq> []" using assms(2) by auto
  ultimately show "snd (DescribeConsumerGroups e s groups) = Inl (GroupError (raw_Err raw))"
    using DescribeConsumerGroups_first_failure [of s e groups pre d post] h assms(3)
    by simp
qed

theorem group_error_fails_call_witness:
  "delivers_all in_order \<and>
   group_e_outcome \<in> set (outcomes demo_env [''group-a'', ''group-c'', ''group-e'']) \<and>
   Err group_e_outcome = None \<and>
   demo_describe ''group-e'' \<in> set (Groups group_e_outcome) \<and>
   raw_Err (demo_describe ''group-e'') \<noteq> ErrNoError \<and>
   arrival in_order (outcomes demo_env [''group-a'', ''group-c'', ''group-e'']) =
     [group_a_outcome] @ group_e_outcome # [] \<and>
   good_outcome demo_env group_a_outcome \<and>
   \<not> takes_ctx_case in_order 0 \<and> \<not> takes_ctx_case in_order 1 \<and>
   Groups group_e_outcome = [demo_describe ''group-c''] @ demo_describe ''group-e'' # [] \<and>
   (\<exists>g. group_converts demo_env (demo_describe ''group-c'') g) \<and>
   snd (DescribeConsumerGroups demo_env in_order [''group-a'', ''group-c'', ''group-e'']) =
     Inl (GroupError 15)"
proof -
  have 2: "group_e_outcome \<in> set (outcomes demo_env [''group-a'', ''group-c'', ''group-e''])"
    by (simp add: demo_outcomes_a_c_e)
  have 3: "Err group_e_outcome = None"
    by (simp add: group_e_outcome_def)
  have 4: "demo_describe ''group-e'' \<in> set (Groups group_e_outcome)"
    by (simp add: group_e_outcome_def)
  have 5: "raw_Err (demo_describe ''group-e'') \<noteq> ErrNoError"
    by (simp add: demo_describe_def ErrNoError_def)
  have 6: "arrival in_order (outcomes demo_env [''group-a'', ''group-c'', ''group-e'']) =
     [group_a_outcome] @ group_e_outcome # []"
    by (simp add: demo_outcomes_a_c_e in_order_def)
  have 7: "\<forall>d'\<in>set [group_a_outcome]. good_outcome demo_env d'"
    by (simp add: demo_good_outcome_a)
  have 8: "\<forall>j\<le>length [group_a_outcome]. \<not> takes_ctx_case in_order j"
    by (simp add: demo_in_order_no_ctx)
  have 9: "Groups group_e_outcome = [demo_describe ''group-c''] @ demo_describe ''group-e'' # []"
    by (simp add: group_e_outcome_def)
  have c: "\<exists>g. group_converts demo_env (demo_describe ''group-c'') g"
    by (simp add: group_converts_iff demo_describe_def corrupt_member_def decodes_to_nil_def)
  then have 10: "\<forall>r\<in>set [demo_describe ''group-c'']. \<exists>g. group_converts demo_env r g"
    by simp
  from group_error_fails_call [OF demo_delivers_all(1) 2 3 4 5] 6 7 8 9 10
  have "snd (DescribeConsumerGroups demo_env in_order [''group-a'', ''group-c'', ''group-e'']) =
     Inl (GroupError (raw_Err (demo_describe ''group-e'')))"
    by blast
  then have "snd (DescribeConsumerGroups demo_env in_order [''group-a'', ''group-c'', ''group-e'']) =
     Inl (GroupError 15)"
    by (simp add: demo_describe_def)
  with demo_delivers_all(1) 2 3 4 5 6 demo_good_outcome_a demo_in_order_no_ctx 9 c
  show ?thesis by (intro conjI)
qed

subsection \<open>C7: a failed coordinator lookup or broker request fails the whole call\<close>

text \<open>
  C7. If the coordinator of some requested group cannot be resolved, the call returns the
  error of the first failing lookup, logs nothing and issues no request, whatever the
  other lookups return. If the request to some broker fails outright, the call returns
  an error and no descriptions under every schedule; when that outcome is the first
  failure the loop meets, the error names the ID of that broker and wraps the error of
  the request.
\<close>

theorem fail_fast:
  assumes "delivers_all s"
  shows "(\<not> resolves e groups \<longrightarrow>
        (\<exists>x pre g post. DescribeConsumerGroups e s groups = ([], Inl x) \<and>
           groups = pre @ g # post \<and> resolves e pre \<and> Coordinator e g = Inl x \<and>
           issued_requests e groups = [])) \<and>
     (\<forall>b grps x. (b, grps) \<in> set (issued_requests e groups) \<and> DescribeGroups b grps = Inl x \<longrightarrow>
        (\<exists>y. snd (DescribeConsumerGroups e s groups) = Inl y) \<and>
        (\<forall>pre post. arrival s (outcomes e groups) = pre @ worker b grps # post \<and>
           (\<forall>d\<in>set pre. good_outcome e d) \<and> (\<forall>j\<le>length pre. \<not> takes_ctx_case s j) \<longrightarrow>
           DescribeConsumerGroups e s groups =
             (conversion_log e pre, Inl (BrokerDescribeFailed (broker_ID b) x))))"
proof (intro conjI allI impI)
  assume "\<not> resolves e groups"
  then show "\<exists>x pre g post. DescribeConsumerGroups e s groups = ([], Inl x) \<and>
           groups = pre @ g # post \<and> resolves e pre \<and> Coordinator e g = Inl x \<and>
           issued_requests e groups = []"
    by (rule DescribeConsumerGroups_unresolved [of e groups s]) blast
next
  fix b grps x
  assume h: "(b, grps) \<in> set (issued_requests e groups) \<and> DescribeGroups b grps = Inl x"
  then have d: "worker b grps \<in> set (outcomes e groups)"
    by (force simp add: outcomes_def)
  have w: "Err (worker b grps) = Some x" "BrokerID (worker b grps) = broker_ID b"
    using h by (simp_all add: worker_def)
  then have "\<not> good_outcome e (worker b grps)"
    by (simp add: good_outcome_iff)
  with assms d show "\<exists>y. snd (DescribeConsumerGroups e s groups) = Inl y"
    by (rule DescribeConsumerGroups_fails)
  fix pre post
  assume p: "arrival s (outcomes e groups) = pre @ worker b grps # post \<and>
           (\<forall>d\<in>set pre. good_outcome e d) \<and> (\<forall>j\<le>length pre. \<not> takes_ctx_case s j)"
  have "outcomes e groups \<noteq> []" using d by auto
  with DescribeConsumerGroups_first_failure [of s e groups pre "worker b grps" post] p w
  show "DescribeConsumerGroups e s groups =
             (conversion_log e pre, Inl (BrokerDescribeFailed (broker_ID b) x))"
    by simp
qed

theorem fail_fast_witness:
  "delivers_all in_order \<and>
   \<not> resolves demo_env [''group-a'', ''group-x''] \<and>
   (\<exists>x pre g post.
      DescribeConsumerGroups demo_env in_order [''group-a'', ''group-x''] = ([], Inl x) \<and>
      [''group-a'', ''group-x''] = pre @ g # post \<and> resolves demo_env pre \<and>
      Coordinator demo_env g = Inl x \<and>
      issued_requests demo_env [''group-a'', ''group-x''] = []) \<and>
   (down_broker 3, [''group-d'']) \<in> set (issued_requests demo_env [''group-c'', ''group-d'']) \<and>
   DescribeGroups (down_broker 3) [''group-d''] = Inl (ClientError ''EOF'') \<and>
   arrival in_order (outcomes demo_env [''group-c'', ''group-d'']) =
     [group_c_outcome] @ worker (down_broker 3) [''group-d''] # [] \<and>
   good_outcome demo_env group_c_outcome \<and>
   \<not> takes_ctx_case in_order 0 \<and> \<not> takes_ctx_case in_order 1 \<and>
   DescribeConsumerGroups demo_env in_order [''group-c'', ''group-d''] =
     ([Warn_decode_failed ''client-2'' (ClientError ''insufficient data to decode packet'')],
      Inl (BrokerDescribeFailed 3 (ClientError ''EOF'')))"
proof -
  have 1: "\<not> resolves demo_env [''group-a'', ''group-x'']"
    by (simp add: resolves_def demo_env_def)
  have 2: "(down_broker 3, [''group-d'']) \<in> set (issued_requests demo_env [''group-c'', ''group-d''])"
    by (simp add: demo_requests_c_d)
  have 3: "DescribeGroups (down_broker 3) [''group-d''] = Inl (ClientError ''EOF'')"
    by (simp add: down_broker_def)
  have 4: "arrival in_order (outcomes demo_env [''group-c'', ''group-d'']) =
     [group_c_outcome] @ worker (down_broker 3) [''group-d''] # []"
    by (simp add: outcomes_def demo_requests_c_d in_order_def worker_def demo_broker_def
        down_broker_def group_c_outcome_def)
  have 5: "\<forall>d\<in>set [group_c_outcome]. good_outcome demo_env d"
    by (simp add: demo_good_outcome)
  have 6: "\<forall>j\<le>length [group_c_outcome]. \<not> takes_ctx_case in_order j"
    by (simp add: demo_in_order_no_ctx)
  note ff = fail_fast [OF demo_delivers_all(1), of demo_env]
  from ff [of "[''group-a'', ''group-x'']"] 1
  have a: "\<exists>x pre g post.
      DescribeConsumerGroups demo_env in_order [''group-a'', ''group-x''] = ([], Inl x) \<and>
      [''group-a'', ''group-x''] = pre @ g # post \<and> resolves demo_env pre \<and>
      Coordinator demo_env g = Inl x \<and>
      issued_requests demo_env [''group-a'', ''group-x''] = []"
    by blast
  from ff [of "[''group-c'', ''group-d'']"] 2 3 4 5 6
  have "DescribeConsumerGroups demo_env in_order [''group-c'', ''group-d''] =
     (conversion_log demo_env [group_c_outcome],
      Inl (BrokerDescribeFailed (broker_ID (down_broker 3)) (ClientError ''EOF'')))"
    by blast
  then have b: "DescribeConsumerGroups demo_env in_order [''group-c'', ''group-d''] =
     ([Warn_decode_failed ''client-2'' (ClientError ''insufficient data to decode packet'')],
      Inl (BrokerDescribeFailed 3 (ClientError ''EOF'')))"
    by (simp add: demo_conversion_log down_broker_def)
  from demo_delivers_all(1) 1 a 2 3 4 demo_good_outcome demo_in_order_no_ctx b
  show ?thesis by (intro conjI)
qed

subsection \<open>C8: assignments and partition IDs are sorted, partitions are those decoded\<close>

text \<open>
  C8. For every member of every group in the output of a successful call, the
  assignments are in ascending order of topic name, the partition IDs of each assignment
  are in ascending order (as signed 32-bit integers), and the member comes from an entry
  of the raw member map of a raw record with the same group ID such that the pairs of
  topic and multiset of partition IDs of the output are exactly those of the decoded
  topic map: no partition ID is added, dropped or duplicated.
\<close>

theorem assignments_ordered:
  assumes "sorting_env e" and "delivers_all s"
    and "snd (DescribeConsumerGroups e s groups) = Inr out"
    and "g \<in> set out" and "member \<in> set (Members g)"
  shows "sorted (map TopicName (Assignments member)) \<and>
     (\<forall>a\<in>set (Assignments member). sorted (map sint (PartitionIDs a))) \<and>
     (\<exists>d\<in>set (outcomes e groups). \<exists>raw\<in>set (Groups d). \<exists>m.
        GroupId raw = GroupID g \<and> (ID member, m) \<in> set (raw_Members raw) \<and>
        mset (map (\<lambda>a. (TopicName a, mset (PartitionIDs a))) (Assignments member)) =
          mset (map (\<lambda>(topic, partitionIDs). (topic, mset partitionIDs))
                 (decoded_topics (raw_ProtocolType raw) m)))"
proof -
  have sd: "sorts_by GroupID (sort_descriptions e)"
    using assms(1) by (simp add: sorting_env_def)
  from DescribeConsumerGroups_output [OF assms(2) sd assms(3)] assms(4)
  obtain d raw where d: "d \<in> set (outcomes e groups)" "raw \<in> set (Groups d)"
    and c: "group_converts e raw g"
    by auto
  from list_all2_in_set2 [OF group_converts_members [OF c] assms(5)]
  obtain entry where entry: "entry \<in> set (raw_Members raw)"
    "snd (convertGroupMember e (raw_ProtocolType raw) entry) = Inr member"
    by blast
  obtain id' m where im: "entry = (id', m)" by (cases entry)
  note a = convertGroupMember_assignments [OF assms(1) entry(2) [unfolded im]]
  have "GroupId raw = GroupID g \<and> (ID member, m) \<in> set (raw_Members raw) \<and>
        mset (map (\<lambda>a. (TopicName a, mset (PartitionIDs a))) (Assignments member)) =
          mset (map (\<lambda>(topic, partitionIDs). (topic, mset partitionIDs))
                 (decoded_topics (raw_ProtocolType raw) m))"
    using a(1,4) entry(1) im group_converts_GroupID [OF c] by simp
  with d a(2,3) show ?thesis by blast
qed

theorem assignments_ordered_witness:
  "sorting_env demo_env \<and> delivers_all in_order \<and>
   snd (DescribeConsumerGroups demo_env in_order [''group-c'']) = Inr [group_c_description] \<and>
   group_c_description \<in> set [group_c_description] \<and>
   group_c_member \<in> set (Members group_c_description) \<and>
   sorted (map TopicName (Assignments group_c_member)) \<and>
   list_all (\<lambda>a. sorted (map sint (PartitionIDs a))) (Assignments group_c_member) \<and>
   (\<exists>d\<in>set (outcomes demo_env [''group-c'']). \<exists>raw\<in>set (Groups d). \<exists>m.
      GroupId raw = GroupID group_c_description \<and>
      (ID group_c_member, m) \<in> set (raw_Members raw) \<and>
      mset (map (\<lambda>a. (TopicName a, mset (PartitionIDs a))) (Assignments group_c_member)) =
        mset (map (\<lambda>(topic, partitionIDs). (topic, mset partitionIDs))
               (decoded_topics (raw_ProtocolType raw) m)))"
proof -
  have 4: "group_c_description \<in> set [group_c_description]" by simp
  have 5: "group_c_member \<in> set (Members group_c_description)"
    by (simp add: group_c_description_def group_c_member_def)
  note c = assignments_ordered [OF demo_sorting_env demo_delivers_all(1) demo_run_c 4 5]
  from c have "list_all (\<lambda>a. sorted (map sint (PartitionIDs a))) (Assignments group_c_member)"
    by (simp add: list_all_iff)
  with c demo_sorting_env demo_delivers_all(1) demo_run_c 4 5
  show ?thesis by blast
qed

subsection \<open>C9: one describe-request per distinct coordinator, when every lookup succeeds\<close>

text \<open>
  C9, as stated, fails for a request with a failing lookup. In the sample cluster the
  coordinator of group-a is resolved (broker 1) and the lookup for group-x fails; the
  call returns that error before any worker is started: one coordinator resolved, no
  request issued.
\<close>

theorem failed_lookup_no_request:
  "coordinator_ID demo_env ''group-a'' = Some 1 \<and>
   coordinator_ID demo_env ''group-x'' = None \<and>
   card {i. \<exists>g\<in>set [''group-a'', ''group-x'']. coordinator_ID demo_env g = Some i} = 1 \<and>
   DescribeConsumerGroups demo_env in_order [''group-a'', ''group-x''] =
     ([], Inl (ClientError ''no coordinator'')) \<and>
   length (issued_requests demo_env [''group-a'', ''group-x'']) = 0"
proof -
  have a: "coordinator_ID demo_env ''group-a'' = Some 1"
    and x: "coordinator_ID demo_env ''group-x'' = None"
    by (simp_all add: coordinator_ID_def demo_env_def demo_broker_def)
  have "{i. \<exists>g\<in>set [''group-a'', ''group-x'']. coordinator_ID demo_env g = Some i} = {1}"
    using a x by auto
  then have c: "card {i. \<exists>g\<in>set [''group-a'', ''group-x'']. coordinator_ID demo_env g = Some i} = 1"
    by simp
  have d: "DescribeConsumerGroups demo_env in_order [''group-a'', ''group-x''] =
     ([], Inl (ClientError ''no coordinator''))"
    by (simp add: DescribeConsumerGroups_def demo_env_def demo_broker_def)
  have l: "length (issued_requests demo_env [''group-a'', ''group-x'']) = 0"
    by (simp add: issued_requests_def demo_env_def demo_broker_def)
  from a x c d l show ?thesis by (intro conjI)
qed

text \<open>
  C9, amended. When every requested group resolves to a coordinator, the call aggregates
  the outcomes of exactly one \<^verbatim>\<open>DescribeGroups\<close> request for each pair of \<open>issued_requests\<close>;
  the number of these requests is the number of distinct coordinator IDs of the requested
  groups; no two of them go to the same broker ID; together they carry every requested
  group ID as often as it was requested; and the request to a broker carries only groups
  that this broker coordinates. When a lookup fails, no request is issued and the call
  returns an error without a log.
\<close>

theorem one_request_per_coordinator:
  "(resolves e groups \<longrightarrow>
      DescribeConsumerGroups e s groups =
        (case aggregate e s 0
                (arrival s
                   (map (\<lambda>(b, grps).
                           (case DescribeGroups b grps of
                              Inl x \<Rightarrow> \<lparr>Err = Some x, Groups = [], BrokerID = broker_ID b\<rparr>
                            | Inr r \<Rightarrow> \<lparr>Err = None, Groups = r, BrokerID = broker_ID b\<rparr>))
                      (issued_requests e groups)))
                [] of
           (logged, Inl x) \<Rightarrow> (logged, Inl x)
         | (logged, Inr descriptions) \<Rightarrow> (logged, Inr (sort_descriptions e descriptions))) \<and>
      length (issued_requests e groups) = card (coordinator_ID e ` set groups) \<and>
      distinct (map (\<lambda>(b, grps). broker_ID b) (issued_requests e groups)) \<and>
      mset (concat (map snd (issued_requests e groups))) = mset groups \<and>
      (\<forall>(b, grps)\<in>set (issued_requests e groups). \<forall>g\<in>set grps.
         coordinator_ID e g = Some (broker_ID b))) \<and>
   (\<not> resolves e groups \<longrightarrow>
      issued_requests e groups = [] \<and>
      (\<exists>x. DescribeConsumerGroups e s groups = ([], Inl x)))"
proof (intro conjI impI)
  assume r: "resolves e groups"
  have "map (\<lambda>(b, grps).
                           (case DescribeGroups b grps of
                              Inl x \<Rightarrow> \<lparr>Err = Some x, Groups = [], BrokerID = broker_ID b\<rparr>
                            | Inr r \<Rightarrow> \<lparr>Err = None, Groups = r, BrokerID = broker_ID b\<rparr>))
                      (issued_requests e groups) = outcomes e groups"
    by (simp add: outcomes_def worker_def)
  then show "DescribeConsumerGroups e s groups =
        (case aggregate e s 0
                (arrival s
                   (map (\<lambda>(b, grps).
                           (case DescribeGroups b grps of
                              Inl x \<Rightarrow> \<lparr>Err = Some x, Groups = [], BrokerID = broker_ID b\<rparr>
                            | Inr r \<Rightarrow> \<lparr>Err = None, Groups = r, BrokerID = broker_ID b\<rparr>))
                      (issued_requests e groups)))
                [] of
           (logged, Inl x) \<Rightarrow> (logged, Inl x)
         | (logged, Inr descriptions) \<Rightarrow> (logged, Inr (sort_descriptions e descriptions)))"
    by (simp only: DescribeConsumerGroups_resolved [OF r])
  let ?ids = "map (\<lambda>(b, grps). broker_ID b) (issued_requests e groups)"
  note b = issued_requests_batches [OF r]
  have "coordinator_ID e ` set groups = Some ` {i. \<exists>g\<in>set groups. coordinator_ID e g = Some i}"
  proof (intro set_eqI iffI)
    fix v assume "v \<in> coordinator_ID e ` set groups"
    then obtain g where g: "g \<in> set groups" "v = coordinator_ID e g" by blast
    with r obtain c where "Coordinator e g = Inr c"
      by (auto simp add: resolves_def list_all_iff)
    then have "coordinator_ID e g = Some (broker_ID c)"
      by (simp add: coordinator_ID_def)
    with g show "v \<in> Some ` {i. \<exists>g\<in>set groups. coordinator_ID e g = Some i}"
      by blast
  next
    fix v assume "v \<in> Some ` {i. \<exists>g\<in>set groups. coordinator_ID e g = Some i}"
    then show "v \<in> coordinator_ID e ` set groups" by force
  qed
  then have "card (coordinator_ID e ` set groups) = card (set ?ids)"
    using b(2) by (simp add: card_image)
  also have "\<dots> = length ?ids"
    using b(1) by (rule distinct_card)
  also have "\<dots> = length (issued_requests e groups)"
    by simp
  finally show "length (issued_requests e groups) = card (coordinator_ID e ` set groups)"
    by simp
  show "distinct ?ids" by (rule b(1))
  show "mset (concat (map snd (issued_requests e groups))) = mset groups" by (rule b(3))
  show "\<forall>(b, grps)\<in>set (issued_requests e groups). \<forall>g\<in>set grps.
         coordinator_ID e g = Some (broker_ID b)"
    using b(4) by blast
next
  assume n: "\<not> resolves e groups"
  then show "issued_requests e groups = []"
    by (rule DescribeConsumerGroups_unresolved [of e groups s])
  from n show "\<exists>x. DescribeConsumerGroups e s groups = ([], Inl x)"
    by (rule DescribeConsumerGroups_unresolved [of e groups s]) blast
qed

theorem one_request_per_coordinator_witness:
  "resolves demo_env [''group-a'', ''group-c'', ''group-b''] \<and>
   issued_requests demo_env [''group-a'', ''group-c'', ''group-b''] =
     [(demo_broker 1, [''group-a'', ''group-b'']), (demo_broker 2, [''group-c''])] \<and>
   card (coordinator_ID demo_env ` set [''group-a'', ''group-c'', ''group-b'']) = 2 \<and>
   DescribeConsumerGroups demo_env in_order [''group-a'', ''group-c'', ''group-b''] =
     (case aggregate demo_env in_order 0
             (arrival in_order
                (map (\<lambda>(b, grps).
                        (case DescribeGroups b grps of
                           Inl x \<Rightarrow> \<lparr>Err = Some x, Groups = [], BrokerID = broker_ID b\<rparr>
                         | Inr r \<Rightarrow> \<lparr>Err = None, Groups = r, BrokerID = broker_ID b\<rparr>))
                   (issued_requests demo_env [''group-a'', ''group-c'', ''group-b''])))
             [] of
        (logged, Inl x) \<Rightarrow> (logged, Inl x)
      | (logged, Inr descriptions) \<Rightarrow> (logged, Inr (sort_descriptions demo_env descriptions))) \<and>
   length (issued_requests demo_env [''group-a'', ''group-c'', ''group-b'']) =
     card (coordinator_ID demo_env ` set [''group-a'', ''group-c'', ''group-b'']) \<and>
   distinct (map (\<lambda>(b, grps). broker_ID b)
     (issued_requests demo_env [''group-a'', ''group-c'', ''group-b''])) \<and>
   mset (concat (map snd (issued_requests demo_env [''group-a'', ''group-c'', ''group-b'']))) =
     mset [''group-a'', ''group-c'', ''group-b''] \<and>
   list_all (\<lambda>(b, grps). list_all (\<lambda>g. coordinator_ID demo_env g = Some (broker_ID b)) grps)
     (issued_requests demo_env [''group-a'', ''group-c'', ''group-b'']) \<and>
   \<not> resolves demo_env [''group-a'', ''group-x''] \<and>
   issued_requests demo_env [''group-a'', ''group-x''] = [] \<and>
   (\<exists>x. DescribeConsumerGroups demo_env in_order [''group-a'', ''group-x''] = ([], Inl x))"
proof -
  have 1: "resolves demo_env [''group-a'', ''group-c'', ''group-b'']"
    by (simp add: resolves_def demo_env_def)
  have 2: "issued_requests demo_env [''group-a'', ''group-c'', ''group-b''] =
     [(demo_broker 1, [''group-a'', ''group-b'']), (demo_broker 2, [''group-c''])]"
    by (simp add: issued_requests_def demo_env_def demo_broker_def)
  have 3: "card (coordinator_ID demo_env ` set [''group-a'', ''group-c'', ''group-b'']) = 2"
    by (simp add: coordinator_ID_def demo_env_def demo_broker_def card_insert_if)
  have 4: "\<not> resolves demo_env [''group-a'', ''group-x'']"
    by (simp add: resolves_def demo_env_def)
  note c = one_request_per_coordinator [of demo_env "[''group-a'', ''group-c'', ''group-b'']" in_order,
      THEN conjunct1, rule_format, OF 1]
  note n = one_request_per_coordinator [of demo_env "[''group-a'', ''group-x'']" in_order,
      THEN conjunct2, rule_format, OF 4]
  from c have l: "list_all (\<lambda>(b, grps). list_all (\<lambda>g. coordinator_ID demo_env g = Some (broker_ID b)) grps)
     (issued_requests demo_env [''group-a'', ''group-c'', ''group-b''])"
    by (simp add: list_all_iff case_prod_unfold)
  from c have d: "DescribeConsumerGroups demo_env in_order [''group-a'', ''group-c'', ''group-b''] =
     (case aggregate demo_env in_order 0
             (arrival in_order
                (map (\<lambda>(b, grps).
                        (case DescribeGroups b grps of
                           Inl x \<Rightarrow> \<lparr>Err = Some x, Groups = [], BrokerID = broker_ID b\<rparr>
                         | Inr r \<Rightarrow> \<lparr>Err = None, Groups = r, BrokerID = broker_ID b\<rparr>))
                   (issued_requests demo_env [''group-a'', ''group-c'', ''group-b''])))
             [] of
        (logged, Inl x) \<Rightarrow> (logged, Inl x)
      | (logged, Inr descriptions) \<Rightarrow> (logged, Inr (sort_descriptions demo_env descriptions)))"
    by (rule conjunct1)
  from c have r: "length (issued_requests demo_env [''group-a'', ''group-c'', ''group-b'']) =
     card (coordinator_ID demo_env ` set [''group-a'', ''group-c'', ''group-b''])"
    "distinct (map (\<lambda>(b, grps). broker_ID b)
     (issued_requests demo_env [''group-a'', ''group-c'', ''group-b'']))"
    "mset (concat (map snd (issued_requests demo_env [''group-a'', ''group-c'', ''group-b'']))) =
     mset [''group-a'', ''group-c'', ''group-b'']"
    by blast+
  from n have e: "issued_requests demo_env [''group-a'', ''group-x''] = []"
    "\<exists>x. DescribeConsumerGroups demo_env in_order [''group-a'', ''group-x''] = ([], Inl x)"
    by blast+
  from 1 2 3 d r l 4 e show ?thesis by (intro conjI)
qed

subsection \<open>C10: the value returned with a decode error is read\<close>

text \<open>
  C10. Let the protocol type be consumer and let \<^verbatim>\<open>GetMemberAssignment\<close> report an error
  for the member at position \<open>i\<close> of the member map. If the value returned with the error is
  nil, \<^verbatim>\<open>convertGroupMembers\<close> dereferences nil. If it is not nil, and no member of the
  map has a nil result, the function succeeds and the member emitted at position \<open>i\<close> has
  as assignments the sorted entries of the topic map returned with the error.
\<close>

theorem decode_error_value_is_read:
  assumes "i < length members" and "members ! i = (id', m)"
    and "GetMemberAssignment m = (a, Some x)"
  shows "(a = None \<longrightarrow> snd (convertGroupMembers e members ''consumer'') = Inl NilDereference) \<and>
     (\<forall>topics. a = Some topics \<and>
        (\<forall>entry\<in>set members. fst (GetMemberAssignment (snd entry)) \<noteq> None) \<longrightarrow>
        (\<exists>out. snd (convertGroupMembers e members ''consumer'') = Inr out \<and>
           length out = length members \<and>
           out ! i = \<lparr>ID = id', ClientID = ClientId m, ClientHost = raw_ClientHost m,
                      Assignments = sort_assignments e
                        (map (\<lambda>(topic, partitionIDs).
                                \<lparr>TopicName = topic,
                                 PartitionIDs = sort_partitionIDs e partitionIDs\<rparr>)
                             topics)\<rparr>))"
proof (intro conjI impI allI)
  assume "a = None"
  with assms have "(id', m) \<in> set members" "decodes_to_nil ''consumer'' (id', m)"
    by (auto simp add: decodes_to_nil_def dest: nth_mem)
  then show "snd (convertGroupMembers e members ''consumer'') = Inl NilDereference"
    unfolding convertGroupMembers_Inl by blast
next
  fix topics
  assume h: "a = Some topics \<and>
        (\<forall>entry\<in>set members. fst (GetMemberAssignment (snd entry)) \<noteq> None)"
  then have "\<not> (\<exists>entry\<in>set members. decodes_to_nil ''consumer'' entry)"
    by (simp add: decodes_to_nil_def)
  then obtain out where out: "snd (convertGroupMembers e members ''consumer'') = Inr out"
    using convertGroupMembers_Inl [of e members "''consumer''"]
    by (cases "snd (convertGroupMembers e members ''consumer'')") auto
  then have l: "list_all2 (\<lambda>entry member. snd (convertGroupMember e ''consumer'' entry) = Inr member)
      members out"
    by (simp add: convertGroupMembers_Inr)
  from list_all2_nthD [OF l assms(1)] assms(2,3) h
  have "out ! i = \<lparr>ID = id', ClientID = ClientId m, ClientHost = raw_ClientHost m,
                      Assignments = sort_assignments e
                        (map (\<lambda>(topic, partitionIDs).
                                \<lparr>TopicName = topic,
                                 PartitionIDs = sort_partitionIDs e partitionIDs\<rparr>)
                             topics)\<rparr>"
    by (simp add: convertGroupMember_decoded)
  with out list_all2_lengthD [OF l]
  show "\<exists>out. snd (convertGroupMembers e members ''consumer'') = Inr out \<and>
           length out = length members \<and>
           out ! i = \<lparr>ID = id', ClientID = ClientId m, ClientHost = raw_ClientHost m,
                      Assignments = sort_assignments e
                        (map (\<lambda>(topic, partitionIDs).
                                \<lparr>TopicName = topic,
                                 PartitionIDs = sort_partitionIDs e partitionIDs\<rparr>)
                             topics)\<rparr>"
    by simp
qed

theorem decode_error_value_is_read_witness:
  "1 < length [(''m1'', demo_member), (''m2'', corrupt_member)] \<and>
   [(''m1'', demo_member), (''m2'', corrupt_member)] ! 1 = (''m2'', corrupt_member) \<and>
   GetMemberAssignment corrupt_member =
     (Some [(''topic-z'', [1]), (''topic-y'', [3, 1])],
      Some (ClientError ''insufficient data to decode packet'')) \<and>
   fst (GetMemberAssignment demo_member) \<noteq> None \<and>
   fst (GetMemberAssignment corrupt_member) \<noteq> None \<and>
   (\<exists>out. snd (convertGroupMembers demo_env [(''m1'', demo_member), (''m2'', corrupt_member)]
              ''consumer'') = Inr out \<and>
      length out = 2 \<and> out ! 1 = group_c_member) \<and>
   0 < length [(''m3'', nil_member)] \<and> [(''m3'', nil_member)] ! 0 = (''m3'', nil_member) \<and>
   GetMemberAssignment nil_member =
     (None, Some (ClientError ''insufficient data to decode packet'')) \<and>
   snd (convertGroupMembers demo_env [(''m3'', nil_member)] ''consumer'') = Inl NilDereference"
proof -
  let ?ms = "[(''m1'', demo_member), (''m2'', corrupt_member)]"
  have 1: "1 < length ?ms" by simp
  have 2: "?ms ! 1 = (''m2'', corrupt_member)" by simp
  have 3: "GetMemberAssignment corrupt_member =
     (Some [(''topic-z'', [1]), (''topic-y'', [3, 1])],
      Some (ClientError ''insufficient data to decode packet''))"
    by (simp add: corrupt_member_def)
  have n: "fst (GetMemberAssignment demo_member) \<noteq> None"
    "fst (GetMemberAssignment corrupt_member) \<noteq> None"
    by (simp_all add: corrupt_member_def demo_member_def)
  then have 4: "\<forall>entry\<in>set ?ms. fst (GetMemberAssignment (snd entry)) \<noteq> None"
    by simp
  from decode_error_value_is_read [OF 1 2 3, of demo_env] 4
  have "\<exists>out. snd (convertGroupMembers demo_env ?ms ''consumer'') = Inr out \<and>
      length out = length ?ms \<and>
      out ! 1 = \<lparr>ID = ''m2'', ClientID = ClientId corrupt_member,
                 ClientHost = raw_ClientHost corrupt_member,
                 Assignments = sort_assignments demo_env
                   (map (\<lambda>(topic, partitionIDs).
                           \<lparr>TopicName = topic,
                            PartitionIDs = sort_partitionIDs demo_env partitionIDs\<rparr>)
                        [(''topic-z'', [1]), (''topic-y'', [3, 1])])\<rparr>"
    by blast
  moreover have "\<lparr>ID = ''m2'', ClientID = ClientId corrupt_member,
                 ClientHost = raw_ClientHost corrupt_member,
                 Assignments = sort_assignments demo_env
                   (map (\<lambda>(topic, partitionIDs).
                           \<lparr>TopicName = topic,
                            PartitionIDs = sort_partitionIDs demo_env partitionIDs\<rparr>)
                        [(''topic-z'', [1]), (''topic-y'', [3, 1])])\<rparr> = group_c_member"
    by (simp add: demo_env_def corrupt_member_def group_c_member_def)
  moreover have "length ?ms = 2" by simp
  ultimately have a: "\<exists>out. snd (convertGroupMembers demo_env ?ms ''consumer'') = Inr out \<and>
      length out = 2 \<and> out ! 1 = group_c_member"
    by (simp only:)
  have 5: "0 < length [(''m3'', nil_member)]" by simp
  have 6: "[(''m3'', nil_member)] ! 0 = (''m3'', nil_member)" by simp
  have 7: "GetMemberAssignment nil_member =
     (None, Some (ClientError ''insufficient data to decode packet''))"
    by (simp add: nil_member_def)
  from decode_error_value_is_read [OF 5 6 7, of demo_env]
  have b: "snd (convertGroupMembers demo_env [(''m3'', nil_member)] ''consumer'') = Inl NilDereference"
    by blast
  from 1 2 3 n a 5 6 7 b show ?thesis by (intro conjI)
qed

end
